theory Spec2Isabelle
  imports Complex_Main "HOL-Library.Word" "HOL-Library.AList"
begin

section \<open>Strings of the handler\<close>

text \<open>
  The handler of \<^verbatim>\<open>netlify/functions/extract-constraints.js\<close> works on JavaScript
  strings, which are sequences of 16-bit code units: \<^verbatim>\<open>length\<close> counts code units and
  the regular expressions of the handler (no \<^verbatim>\<open>u\<close> flag) match code units. The bullet
  \<^verbatim>\<open>U+2022\<close> is one code unit.
\<close>

type_synonym ustring = "16 word list"

definition str :: "string \<Rightarrow> ustring" where
  "str s = map of_char s"

text \<open>
  \<^verbatim>\<open>WhiteSpace\<close> and \<^verbatim>\<open>LineTerminator\<close> of ECMAScript: what
  \<^verbatim>\<open>String.prototype.trim\<close> removes and what \<^verbatim>\<open>\s\<close> matches.
\<close>

definition is_ws :: "16 word \<Rightarrow> bool" where
  "is_ws c = (c \<in> {0x09, 0x0A, 0x0B, 0x0C, 0x0D, 0x20, 0xA0, 0x1680,
                    0x2000, 0x2001, 0x2002, 0x2003, 0x2004, 0x2005, 0x2006, 0x2007,
                    0x2008, 0x2009, 0x200A, 0x2028, 0x2029, 0x202F, 0x205F, 0x3000, 0xFEFF})"

definition trim :: "ustring \<Rightarrow> ustring" where
  "trim s = rev (dropWhile is_ws (rev (dropWhile is_ws s)))"

text \<open>\<^verbatim>\<open>s.startsWith(p)\<close>: the code units of \<open>p\<close> stand at the start of \<open>s\<close>.\<close>

fun starts_with :: "ustring \<Rightarrow> ustring \<Rightarrow> bool" where
  "starts_with s [] = True"
| "starts_with [] (p # ps) = False"
| "starts_with (c # cs) (p # ps) = (c = p \<and> starts_with cs ps)"

text \<open>\<^verbatim>\<open>s.indexOf(sep)\<close>, with \<open>None\<close> for the result \<^verbatim>\<open>-1\<close>.\<close>

fun index_of :: "ustring \<Rightarrow> ustring \<Rightarrow> nat option" where
  "index_of [] sep = (if sep = [] then Some 0 else None)"
| "index_of (c # cs) sep =
     (if starts_with (c # cs) sep then Some 0 else map_option Suc (index_of cs sep))"

text \<open>\<^verbatim>\<open>s.includes(sep)\<close>.\<close>

definition includes_str :: "ustring \<Rightarrow> ustring \<Rightarrow> bool" where
  "includes_str s sep = (index_of s sep \<noteq> None)"

text \<open>
  \<^verbatim>\<open>s.split(sep)\<close> for a string separator: the pieces between the occurrences of
  \<open>sep\<close>, found from left to right, each search starting after the previous occurrence.
  An empty separator splits into code units.
\<close>

function split :: "ustring \<Rightarrow> ustring \<Rightarrow> ustring list" where
  "split s sep =
     (if sep = [] then map (\<lambda>c. [c]) s
      else case index_of s sep of
             None \<Rightarrow> [s]
           | Some i \<Rightarrow> take i s # split (drop (i + length sep) s) sep)"
  by pat_completeness auto
termination
proof (relation "measure (\<lambda>(s, sep). length s)")
  show "wf (measure (\<lambda>(s, sep). length s))" by simp
next
  fix s sep :: ustring and i :: nat
  assume sep: "sep \<noteq> []" and i: "index_of s sep = Some i"
  have "s \<noteq> []" using sep i by (cases s) auto
  then show "((drop (i + length sep) s, sep), (s, sep)) \<in> measure (\<lambda>(s, sep). length s)"
    using sep by (cases s) auto
qed

declare split.simps [simp del]

section \<open>Errors and array reads\<close>

text \<open>
  Everything the handler can throw is caught by its outer \<^verbatim>\<open>try\<close>; the model keeps
  the kind of the error and, where the handler builds it, the message.
\<close>

datatype error =
    TypeError
  | SyntaxError
  | FetchFailed ustring
  | ApiError ustring

text \<open>\<^verbatim>\<open>xs[i]\<close> on an array: \<^verbatim>\<open>undefined\<close> out of range, here \<open>None\<close>.\<close>

definition at_index :: "'a list \<Rightarrow> nat \<Rightarrow> 'a option" where
  "at_index xs i = (if i < length xs then Some (xs ! i) else None)"

section \<open>Code-fence stripping (lines 190--195)\<close>

definition fence :: ustring where
  "fence = str ''```''"

definition fence_json :: ustring where
  "fence_json = str ''```json''"

text \<open>
  \<^verbatim>\<open>aiOutput.split(m)[1].split('```')[0].trim()\<close>. Calling \<^verbatim>\<open>split\<close> on
  \<^verbatim>\<open>undefined\<close> throws a \<^verbatim>\<open>TypeError\<close>.
\<close>

definition between_fences :: "ustring \<Rightarrow> ustring \<Rightarrow> error + ustring" where
  "between_fences aiOutput m =
     (case at_index (split aiOutput m) 1 of
        None \<Rightarrow> Inl TypeError
      | Some piece \<Rightarrow>
          (case at_index (split piece fence) 0 of
             None \<Rightarrow> Inl TypeError
           | Some inner \<Rightarrow> Inr (trim inner)))"

definition stripCodeFence :: "ustring \<Rightarrow> error + ustring" where
  "stripCodeFence aiOutput =
     (if includes_str aiOutput fence_json then between_fences aiOutput fence_json
      else if includes_str aiOutput fence then between_fences aiOutput fence
      else Inr aiOutput)"

text \<open>
  The first piece of \<^verbatim>\<open>s.split(sep)\<close>: the text before the first occurrence of
  \<open>sep\<close>, the whole of \<open>s\<close> when there is none.
\<close>

definition first_piece :: "ustring \<Rightarrow> ustring \<Rightarrow> ustring" where
  "first_piece s sep = (case index_of s sep of None \<Rightarrow> s | Some i \<Rightarrow> take i s)"

section \<open>JavaScript values\<close>

text \<open>
  What \<^verbatim>\<open>JSON.parse\<close> returns, and \<^verbatim>\<open>undefined\<close> for the properties that
  are not there. An object is the list of its own properties in enumeration order (its keys
  are distinct). A finite number carries its value; \<open>JInfinity True\<close> and
  \<open>JInfinity False\<close> are the numbers \<^verbatim>\<open>Infinity\<close> and \<^verbatim>\<open>-Infinity\<close>, which
  \<^verbatim>\<open>JSON.parse\<close> returns for a numeral beyond the range of a double.
\<close>

datatype val =
    JUndefined
  | JNull
  | JBool bool
  | JNum rat
  | JInfinity bool
  | JStr ustring
  | JArr "val list"
  | JObj "(ustring \<times> val) list"

fun truthy :: "val \<Rightarrow> bool" where
  "truthy JUndefined = False"
| "truthy JNull = False"
| "truthy (JBool b) = b"
| "truthy (JNum r) = (r \<noteq> 0)"
| "truthy (JInfinity b) = True"
| "truthy (JStr s) = (s \<noteq> [])"
| "truthy (JArr xs) = True"
| "truthy (JObj kvs) = True"

text \<open>\<^verbatim>\<open>a || b\<close>, for a right operand whose evaluation has no effect.\<close>

definition js_or :: "val \<Rightarrow> val \<Rightarrow> val" where
  "js_or a b = (if truthy a then a else b)"

text \<open>
  \<^verbatim>\<open>v.k\<close> for the property names the handler reads (\<^verbatim>\<open>constraints\<close>,
  \<^verbatim>\<open>id\<close>, \<^verbatim>\<open>similarity\<close>, \<^verbatim>\<open>choices\<close>, ...): none of them is a member of a
  built-in prototype or an own property of a string or an array, so the read gives an own
  property of an object and \<^verbatim>\<open>undefined\<close> otherwise. Reading a property of
  \<^verbatim>\<open>null\<close> or \<^verbatim>\<open>undefined\<close> throws.
\<close>

fun get :: "val \<Rightarrow> ustring \<Rightarrow> error + val" where
  "get JUndefined k = Inl TypeError"
| "get JNull k = Inl TypeError"
| "get (JObj kvs) k = Inr (case map_of kvs k of None \<Rightarrow> JUndefined | Some v \<Rightarrow> v)"
| "get v k = Inr JUndefined"

text \<open>\<^verbatim>\<open>v[0]\<close>.\<close>

fun get0 :: "val \<Rightarrow> error + val" where
  "get0 JUndefined = Inl TypeError"
| "get0 JNull = Inl TypeError"
| "get0 (JArr xs) = Inr (case xs of [] \<Rightarrow> JUndefined | x # _ \<Rightarrow> x)"
| "get0 (JStr s) = Inr (case s of [] \<Rightarrow> JUndefined | c # _ \<Rightarrow> JStr [c])"
| "get0 (JObj kvs) = Inr (case map_of kvs (str ''0'') of None \<Rightarrow> JUndefined | Some v \<Rightarrow> v)"
| "get0 v = Inr JUndefined"

text \<open>The decimal digits of an array index, as a property name.\<close>

fun dec :: "nat \<Rightarrow> ustring" where
  "dec n = (if n < 10 then [of_nat (48 + n)] else dec (n div 10) @ [of_nat (48 + n mod 10)])"

declare dec.simps [simp del]

text \<open>
  The own enumerable properties that \<^verbatim>\<open>{...v}\<close> copies: those of an object, the
  elements of an array and the code units of a string under their indices, nothing for
  the other values.
\<close>

fun spread :: "val \<Rightarrow> (ustring \<times> val) list" where
  "spread (JObj kvs) = kvs"
| "spread (JArr xs) = zip (map dec [0..<length xs]) xs"
| "spread (JStr s) = zip (map dec [0..<length s]) (map (\<lambda>c. JStr [c]) s)"
| "spread v = []"

text \<open>
  A property \<^verbatim>\<open>k: v\<close> written after a spread in an object literal: it replaces the
  value of \<open>k\<close> in place when the key is there and is added last otherwise.
\<close>

definition set_prop :: "ustring \<Rightarrow> val \<Rightarrow> (ustring \<times> val) list \<Rightarrow> (ustring \<times> val) list" where
  "set_prop k v kvs = AList.update k v kvs"



text \<open>Sequencing of steps that may throw.\<close>

definition try_bind :: "error + 'a \<Rightarrow> ('a \<Rightarrow> error + 'b) \<Rightarrow> error + 'b" where
  "try_bind m f = (case m of Inl e \<Rightarrow> Inl e | Inr x \<Rightarrow> f x)"

section \<open>The world outside the handler\<close>

datatype fetch_outcome =
    Rejected ustring
  | NotOk nat "val option"
  | OkBody "val option"

text \<open>
  \<open>json_parse\<close> is \<^verbatim>\<open>JSON.parse\<close> (\<open>None\<close> when it throws a
  \<^verbatim>\<open>SyntaxError\<close>); \<open>env\<close> is \<^verbatim>\<open>process.env\<close>; \<open>reply\<close> is what
  \<^verbatim>\<open>fetch\<close> and \<^verbatim>\<open>response.json()\<close> give for the request the handler sends: a
  rejection with its message, a status that is not ok with the decoded error body, or an
  ok status with the decoded body (\<open>None\<close> when \<^verbatim>\<open>response.json()\<close> rejects);
  \<open>uuidv4 k\<close> is the result of the \<open>k\<close>-th call of \<^verbatim>\<open>uuidv4()\<close> in the request;
  \<open>toString\<close> is the conversion of a value that is not a string to a string;
  \<open>engine_message\<close> is the message of an error that the engine throws.
\<close>

record world =
  json_parse :: "ustring \<Rightarrow> val option"
  env :: "ustring \<Rightarrow> ustring option"
  reply :: fetch_outcome
  uuidv4 :: "nat \<Rightarrow> ustring"
  toString :: "val \<Rightarrow> ustring"
  engine_message :: "error \<Rightarrow> ustring"

text \<open>\<^verbatim>\<open>`${v}`\<close> and the conversion of a property key.\<close>

definition to_string :: "world \<Rightarrow> val \<Rightarrow> ustring" where
  "to_string w v = (case v of JStr s \<Rightarrow> s | _ \<Rightarrow> toString w v)"

section \<open>The result reconciler (lines 197--248)\<close>

subsection \<open>Fallback: line-oriented extraction (lines 204--219)\<close>

text \<open>The character class \<^verbatim>\<open>[-*\<bullet>]\<close>, the third member being \<^verbatim>\<open>U+2022\<close>.\<close>

definition bullet :: "16 word \<Rightarrow> bool" where
  "bullet c = (c \<in> {0x2D, 0x2A, 0x2022})"

text \<open>\<^verbatim>\<open>line.trim().match(/^[-*\<bullet>]/)\<close> is not \<^verbatim>\<open>null\<close>.\<close>

definition is_bullet_line :: "ustring \<Rightarrow> bool" where
  "is_bullet_line line = (case trim line of [] \<Rightarrow> False | c # rest \<Rightarrow> bullet c)"

text \<open>\<^verbatim>\<open>line.replace(/^[-*\<bullet>]\s/, '')\<close>.\<close>

definition strip_bullet :: "ustring \<Rightarrow> ustring" where
  "strip_bullet line =
     (case line of
        c # d # rest \<Rightarrow> if bullet c \<and> is_ws d then rest else line
      | _ \<Rightarrow> line)"

definition basic_constraint :: "world \<Rightarrow> ustring \<Rightarrow> nat \<Rightarrow> ustring \<Rightarrow> val" where
  "basic_constraint w inputText n line =
     JObj [(str ''id'', JStr (uuidv4 w n)),
           (str ''text'', JStr (trim (strip_bullet line))),
           (str ''sourceStart'', JNum 0),
           (str ''sourceEnd'', JNum (of_nat (length inputText)))]"

text \<open>The \<^verbatim>\<open>map\<close> over the bullet lines: one call of \<^verbatim>\<open>uuidv4()\<close> for each.\<close>

fun basic_constraints :: "world \<Rightarrow> ustring \<Rightarrow> nat \<Rightarrow> ustring list \<Rightarrow> val list \<times> nat" where
  "basic_constraints w inputText n [] = ([], n)"
| "basic_constraints w inputText n (line # rest) =
     (case basic_constraints w inputText (Suc n) rest of
        (cs, n') \<Rightarrow> (basic_constraint w inputText n line # cs, n'))"

definition fallback :: "world \<Rightarrow> ustring \<Rightarrow> ustring \<Rightarrow> val \<times> nat" where
  "fallback w inputText aiOutput =
     (case basic_constraints w inputText 0 (filter is_bullet_line (split aiOutput [0x0A])) of
        (basicConstraints, n) \<Rightarrow>
          (JObj [(str ''constraints'', JArr basicConstraints),
                 (str ''redundantGroups'', JArr []),
                 (str ''contradictions'', JArr []),
                 (str ''originalText'', JStr inputText)], n))"

subsection \<open>Post-processing (lines 230--248)\<close>

text \<open>\<^verbatim>\<open>x.id || uuidv4()\<close>: \<^verbatim>\<open>uuidv4\<close> is called only when the id is falsy.\<close>

definition id_or_fresh :: "world \<Rightarrow> nat \<Rightarrow> val \<Rightarrow> val \<times> nat" where
  "id_or_fresh w n i = (if truthy i then (i, n) else (JStr (uuidv4 w n), Suc n))"

definition fix_constraint :: "world \<Rightarrow> ustring \<Rightarrow> nat \<Rightarrow> val \<Rightarrow> error + val \<times> nat" where
  "fix_constraint w inputText n constraint =
     try_bind (get constraint (str ''id'')) (\<lambda>i.
     try_bind (get constraint (str ''sourceStart'')) (\<lambda>a.
     try_bind (get constraint (str ''sourceEnd'')) (\<lambda>b.
       case id_or_fresh w n i of
         (i', n') \<Rightarrow>
           Inr (JObj (set_prop (str ''sourceEnd'') (js_or b (JNum (of_nat (length inputText))))
                     (set_prop (str ''sourceStart'') (js_or a (JNum 0))
                     (set_prop (str ''id'') i' (spread constraint)))), n'))))"

definition fix_group :: "world \<Rightarrow> nat \<Rightarrow> val \<Rightarrow> error + val \<times> nat" where
  "fix_group w n grp =
     try_bind (get grp (str ''id'')) (\<lambda>i.
     try_bind (get grp (str ''similarity'')) (\<lambda>s.
       case id_or_fresh w n i of
         (i', n') \<Rightarrow>
           Inr (JObj (set_prop (str ''similarity'') (js_or s (JNum 0.8))
                     (set_prop (str ''id'') i' (spread grp))), n')))"

definition fix_contradiction :: "world \<Rightarrow> nat \<Rightarrow> val \<Rightarrow> error + val \<times> nat" where
  "fix_contradiction w n contradiction =
     try_bind (get contradiction (str ''id'')) (\<lambda>i.
     try_bind (get contradiction (str ''confidence'')) (\<lambda>c.
       case id_or_fresh w n i of
         (i', n') \<Rightarrow>
           Inr (JObj (set_prop (str ''confidence'') (js_or c (JNum 0.8))
                     (set_prop (str ''id'') i' (spread contradiction))), n')))"

text \<open>
  \<^verbatim>\<open>xs.map(f)\<close>, the count of the identifiers made so far passed along. A value that
  is not an array has no callable \<^verbatim>\<open>map\<close>: the call throws.
\<close>

fun map_elems :: "(nat \<Rightarrow> val \<Rightarrow> error + val \<times> nat) \<Rightarrow> nat \<Rightarrow> val list \<Rightarrow> error + val list \<times> nat" where
  "map_elems f n [] = Inr ([], n)"
| "map_elems f n (x # xs) =
     try_bind (f n x) (\<lambda>(y, n').
     try_bind (map_elems f n' xs) (\<lambda>(ys, n'').
       Inr (y # ys, n'')))"

definition js_map :: "(nat \<Rightarrow> val \<Rightarrow> error + val \<times> nat) \<Rightarrow> nat \<Rightarrow> val \<Rightarrow> error + val \<times> nat" where
  "js_map f n v =
     (case v of
        JArr xs \<Rightarrow> try_bind (map_elems f n xs) (\<lambda>(ys, n'). Inr (JArr ys, n'))
      | _ \<Rightarrow> Inl TypeError)"

subsection \<open>The whole step\<close>

text \<open>
  Lines 197--248: the parse or the fallback, the four top-level fields, the three
  \<^verbatim>\<open>map\<close>s. The result is the object handed to \<^verbatim>\<open>JSON.stringify\<close>.
\<close>

text \<open>Lines 197--220: the parsed answer, or the fallback when the parse throws.\<close>

definition parse_answer :: "world \<Rightarrow> ustring \<Rightarrow> ustring \<Rightarrow> val \<times> nat" where
  "parse_answer w inputText aiOutput =
     (case json_parse w aiOutput of
        Some v \<Rightarrow> (v, 0)
      | None \<Rightarrow> fallback w inputText aiOutput)"

definition reconcile :: "world \<Rightarrow> ustring \<Rightarrow> ustring \<Rightarrow> error + val" where
  "reconcile w inputText aiOutput =
     (case parse_answer w inputText aiOutput of
        (analysisResult, n0) \<Rightarrow>
          try_bind (get analysisResult (str ''constraints'')) (\<lambda>c.
          try_bind (get analysisResult (str ''redundantGroups'')) (\<lambda>g.
          try_bind (get analysisResult (str ''contradictions'')) (\<lambda>x.
          try_bind (get analysisResult (str ''originalText'')) (\<lambda>t.
          try_bind (js_map (fix_constraint w inputText) n0 (js_or c (JArr []))) (\<lambda>(constraints, n1).
          try_bind (js_map (fix_group w) n1 (js_or g (JArr []))) (\<lambda>(redundantGroups, n2).
          try_bind (js_map (fix_contradiction w) n2 (js_or x (JArr []))) (\<lambda>(contradictions, n3).
            Inr (JObj [(str ''constraints'', constraints),
                       (str ''redundantGroups'', redundantGroups),
                       (str ''contradictions'', contradictions),
                       (str ''originalText'', js_or t (JStr inputText))])))))))))"

section \<open>The provider registry (lines 4--75)\<close>

datatype provider = XAI | OpenAI | Anthropic | Gemini | Cohere

definition AI_PROVIDERS :: "(ustring \<times> provider) list" where
  "AI_PROVIDERS =
     [(str ''xAI (Grok)'', XAI),
      (str ''OpenAI'', OpenAI),
      (str ''Anthropic (Claude)'', Anthropic),
      (str ''Google (Gemini)'', Gemini),
      (str ''Cohere'', Cohere)]"

fun envKey :: "provider \<Rightarrow> ustring" where
  "envKey XAI = str ''XAI_API_KEY''"
| "envKey OpenAI = str ''OPENAI_API_KEY''"
| "envKey Anthropic = str ''ANTHROPIC_API_KEY''"
| "envKey Gemini = str ''GOOGLE_API_KEY''"
| "envKey Cohere = str ''COHERE_API_KEY''"

text \<open>\<^verbatim>\<open>data.choices[0].message.content\<close>.\<close>

definition chat_content :: "val \<Rightarrow> error + val" where
  "chat_content data =
     try_bind (get data (str ''choices'')) (\<lambda>choices.
     try_bind (get0 choices) (\<lambda>choice.
     try_bind (get choice (str ''message'')) (\<lambda>message.
       get message (str ''content''))))"

fun parseResponse :: "provider \<Rightarrow> val \<Rightarrow> error + val" where
  "parseResponse XAI data = chat_content data"
| "parseResponse OpenAI data = chat_content data"
| "parseResponse Anthropic data =
     try_bind (get data (str ''content'')) (\<lambda>content.
     try_bind (get0 content) (\<lambda>block.
       get block (str ''text'')))"
| "parseResponse Gemini data =
     try_bind (get data (str ''candidates'')) (\<lambda>candidates.
     try_bind (get0 candidates) (\<lambda>candidate.
     try_bind (get candidate (str ''content'')) (\<lambda>content.
     try_bind (get content (str ''parts'')) (\<lambda>parts.
     try_bind (get0 parts) (\<lambda>part.
       get part (str ''text''))))))"
| "parseResponse Cohere data = get data (str ''text'')"

text \<open>
  \<^verbatim>\<open>AI_PROVIDERS[providerName]\<close> reads an own entry of the table or, for the name of
  a member of \<^verbatim>\<open>Object.prototype\<close>, that member: a truthy value that has none of
  the fields of a descriptor.
\<close>

definition object_prototype_members :: "ustring list" where
  "object_prototype_members =
     [str ''constructor'', str ''hasOwnProperty'', str ''isPrototypeOf'',
      str ''propertyIsEnumerable'', str ''toLocaleString'', str ''toString'',
      str ''valueOf'', str ''__proto__'', str ''__defineGetter__'',
      str ''__defineSetter__'', str ''__lookupGetter__'', str ''__lookupSetter__'']"

datatype entry = Own provider | Inherited | NotFound

definition lookup_provider :: "ustring \<Rightarrow> entry" where
  "lookup_provider name =
     (case map_of AI_PROVIDERS name of
        Some p \<Rightarrow> Own p
      | None \<Rightarrow> if name \<in> set object_prototype_members then Inherited else NotFound)"

section \<open>The handler (lines 77--278)\<close>

record event =
  httpMethod :: ustring
  event_body :: "ustring option"

text \<open>\<open>body\<close> is the value that the handler gives to \<^verbatim>\<open>JSON.stringify\<close>.\<close>

record response =
  statusCode :: nat
  headers :: "(ustring \<times> ustring) list"
  body :: val

text \<open>The headers of the responses 405, 400 and 500.\<close>

definition error_headers :: "(ustring \<times> ustring) list" where
  "error_headers =
     [(str ''Content-Type'', str ''application/json''),
      (str ''Access-Control-Allow-Origin'', str ''*'')]"

text \<open>The headers of the response 200.\<close>

definition success_headers :: "(ustring \<times> ustring) list" where
  "success_headers =
     [(str ''Content-Type'', str ''application/json''),
      (str ''Access-Control-Allow-Origin'', str ''*''),
      (str ''Access-Control-Allow-Headers'', str ''Content-Type''),
      (str ''Access-Control-Allow-Methods'', str ''POST, OPTIONS'')]"

definition error_response :: "nat \<Rightarrow> ustring \<Rightarrow> response" where
  "error_response code msg =
     \<lparr>statusCode = code, headers = error_headers, body = JObj [(str ''error'', JStr msg)]\<rparr>"

text \<open>
  Lines 182--185: the error thrown for a status that is not ok, with the provider's own
  message when the decoded body has one.
\<close>

definition api_error :: "world \<Rightarrow> nat \<Rightarrow> val option \<Rightarrow> error" where
  "api_error w status decoded =
     (let errorData = (case decoded of None \<Rightarrow> JObj [] | Some v \<Rightarrow> v) in
      case try_bind (get errorData (str ''error'')) (\<lambda>e.
             if e = JUndefined \<or> e = JNull then Inr JUndefined else get e (str ''message'')) of
        Inl err \<Rightarrow> err
      | Inr m \<Rightarrow>
          ApiError (to_string w
            (js_or m (JStr (str ''API request failed with status '' @ dec status)))))"

text \<open>
  Lines 90--188, up to the trimmed answer of the provider: either a response returned
  early, or the input text and the answer that go on to the stripping and the reconciler.
\<close>

datatype stage = Respond response | Continue ustring ustring

definition call_provider :: "world \<Rightarrow> provider \<Rightarrow> ustring \<Rightarrow> error + stage" where
  "call_provider w p inputText =
     (case reply w of
        Rejected m \<Rightarrow> Inl (FetchFailed m)
      | NotOk status decoded \<Rightarrow> Inl (api_error w status decoded)
      | OkBody None \<Rightarrow> Inl SyntaxError
      | OkBody (Some data) \<Rightarrow>
          try_bind (parseResponse p data) (\<lambda>content.
            case content of
              JStr s \<Rightarrow> Inr (Continue inputText (trim s))
            | _ \<Rightarrow> Inl TypeError))"

definition request_stage :: "world \<Rightarrow> event \<Rightarrow> error + stage" where
  "request_stage w ev =
     (case event_body ev of
        None \<Rightarrow> Inl TypeError
      | Some b \<Rightarrow>
          (case json_parse w b of
             None \<Rightarrow> Inl SyntaxError
           | Some req \<Rightarrow>
               try_bind (get req (str ''providerName'')) (\<lambda>providerName.
               try_bind (get req (str ''inputText'')) (\<lambda>inputText.
                 case lookup_provider (to_string w providerName) of
                   NotFound \<Rightarrow> Inr (Respond (error_response 400 (str ''Invalid provider'')))
                 | found \<Rightarrow>
                     (let apiKey = env w (case found of Own p \<Rightarrow> envKey p
                                          | _ \<Rightarrow> str ''undefined'') in
                      if apiKey = None \<or> apiKey = Some [] then
                        Inr (Respond (error_response 500
                               (to_string w providerName @ str '' API key not configured'')))
                      else
                        (case inputText of
                           JStr t \<Rightarrow>
                             (case found of
                                Own p \<Rightarrow> call_provider w p t
                              | _ \<Rightarrow> Inl TypeError)
                         | _ \<Rightarrow> Inl TypeError))))))"

text \<open>The \<^verbatim>\<open>try\<close> block, lines 89--259.\<close>

definition handler_try :: "world \<Rightarrow> event \<Rightarrow> error + response" where
  "handler_try w ev =
     try_bind (request_stage w ev) (\<lambda>st.
       case st of
         Respond r \<Rightarrow> Inr r
       | Continue inputText answer \<Rightarrow>
           try_bind (stripCodeFence answer) (\<lambda>aiOutput.
           try_bind (reconcile w inputText aiOutput) (\<lambda>analysisResult.
             Inr \<lparr>statusCode = 200, headers = success_headers, body = analysisResult\<rparr>)))"

definition message :: "world \<Rightarrow> error \<Rightarrow> ustring" where
  "message w e =
     (case e of
        FetchFailed m \<Rightarrow> m
      | ApiError m \<Rightarrow> m
      | _ \<Rightarrow> engine_message w e)"

text \<open>The \<^verbatim>\<open>catch\<close> block, lines 261--277.\<close>

definition failure_response :: "world \<Rightarrow> error \<Rightarrow> response" where
  "failure_response w e =
     \<lparr>statusCode = 500, headers = error_headers,
      body = JObj [(str ''error'', JStr (if message w e = [] then str ''Internal server error''
                                         else message w e)),
                   (str ''constraints'', JArr []),
                   (str ''redundantGroups'', JArr []),
                   (str ''contradictions'', JArr []),
                   (str ''originalText'', JStr [])]\<rparr>"

definition handler :: "world \<Rightarrow> event \<Rightarrow> response" where
  "handler w ev =
     (if httpMethod ev \<noteq> str ''POST'' then error_response 405 (str ''Method not allowed'')
      else case handler_try w ev of
             Inr r \<Rightarrow> r
           | Inl e \<Rightarrow> failure_response w e)"

section \<open>Notions of the statements\<close>

text \<open>The value of \<^verbatim>\<open>v.k\<close> where the read does not throw.\<close>

definition field :: "val \<Rightarrow> ustring \<Rightarrow> val" where
  "field v k = (case get v k of Inr x \<Rightarrow> x | Inl e \<Rightarrow> JUndefined)"

text \<open>
  The shape of an \<^verbatim>\<open>AnalysisResult\<close>: exactly the four top-level fields, three
  arrays and a string.
\<close>

definition analysis_shape :: "val \<Rightarrow> bool" where
  "analysis_shape v =
     (case v of
        JObj [(k1, JArr cs), (k2, JArr gs), (k3, JArr xs), (k4, JStr t)] \<Rightarrow>
          k1 = str ''constraints'' \<and> k2 = str ''redundantGroups'' \<and>
          k3 = str ''contradictions'' \<and> k4 = str ''originalText''
      | _ \<Rightarrow> False)"

text \<open>
  A collection field that line 224--226 and the \<^verbatim>\<open>map\<close> of lines 231--248 accept:
  falsy, or an array with no \<^verbatim>\<open>null\<close> element.
\<close>

definition collection_ok :: "val \<Rightarrow> bool" where
  "collection_ok v =
     (case v of
        JArr xs \<Rightarrow> list_all (\<lambda>x. x \<noteq> JNull \<and> x \<noteq> JUndefined) xs
      | _ \<Rightarrow> \<not> truthy v)"

definition text_ok :: "val \<Rightarrow> bool" where
  "text_ok v = (case v of JStr t \<Rightarrow> True | _ \<Rightarrow> \<not> truthy v)"

text \<open>
  The answers for which the handler gives a well-shaped result: a text that does not
  parse, or a parsed value other than \<^verbatim>\<open>null\<close> whose three collections are
  acceptable and whose \<^verbatim>\<open>originalText\<close> is falsy or a string.
\<close>

definition answer_ok :: "val option \<Rightarrow> bool" where
  "answer_ok p =
     (case p of
        None \<Rightarrow> True
      | Some v \<Rightarrow>
          v \<noteq> JNull \<and> v \<noteq> JUndefined \<and>
          collection_ok (field v (str ''constraints'')) \<and>
          collection_ok (field v (str ''redundantGroups'')) \<and>
          collection_ok (field v (str ''contradictions'')) \<and>
          text_ok (field v (str ''originalText'')))"

text \<open>A number of the interval \<open>[0, 1]\<close>.\<close>

definition in_unit :: "val \<Rightarrow> bool" where
  "in_unit v = (case v of JNum r \<Rightarrow> 0 \<le> r \<and> r \<le> 1 | _ \<Rightarrow> False)"

text \<open>
  What post-processing does to the score \<open>k\<close> of an element \<open>x\<close>, giving \<open>y\<close>: a score
  that is absent or \<^verbatim>\<open>null\<close> becomes 0.8, a number other than zero stays.
\<close>

definition score_rule :: "ustring \<Rightarrow> val \<Rightarrow> val \<Rightarrow> bool" where
  "score_rule k x y =
     (case field x k of
        JUndefined \<Rightarrow> field y k = JNum 0.8
      | JNull \<Rightarrow> field y k = JNum 0.8
      | JNum r \<Rightarrow> (if r = 0 then True else field y k = JNum r)
      | _ \<Rightarrow> True)"

text \<open>A score that is absent, \<^verbatim>\<open>null\<close> or a number of \<open>(0, 1]\<close>.\<close>

definition score_absent_or_unit :: "val \<Rightarrow> bool" where
  "score_absent_or_unit v =
     (case v of
        JUndefined \<Rightarrow> True
      | JNull \<Rightarrow> True
      | JNum r \<Rightarrow> 0 < r \<and> r \<le> 1
      | _ \<Rightarrow> False)"

text \<open>
  What post-processing does to the offsets of a constraint \<open>x\<close>, giving \<open>y\<close>:
  \<^verbatim>\<open>sourceStart\<close> defaults to 0 and a number stays; \<^verbatim>\<open>sourceEnd\<close> defaults to the
  length of the input text and a number other than zero stays.
\<close>

definition span_rule :: "nat \<Rightarrow> val \<Rightarrow> val \<Rightarrow> bool" where
  "span_rule len x y =
     ((case field x (str ''sourceStart'') of
         JUndefined \<Rightarrow> field y (str ''sourceStart'') = JNum 0
       | JNull \<Rightarrow> field y (str ''sourceStart'') = JNum 0
       | JNum a \<Rightarrow> field y (str ''sourceStart'') = JNum a
       | _ \<Rightarrow> True) \<and>
      (case field x (str ''sourceEnd'') of
         JUndefined \<Rightarrow> field y (str ''sourceEnd'') = JNum (of_nat len)
       | JNull \<Rightarrow> field y (str ''sourceEnd'') = JNum (of_nat len)
       | JNum b \<Rightarrow> (if b = 0 then True else field y (str ''sourceEnd'') = JNum b)
       | _ \<Rightarrow> True))"

definition absent :: "val \<Rightarrow> bool" where
  "absent v = (v = JUndefined \<or> v = JNull)"

text \<open>\<^verbatim>\<open>sourceStart <= sourceEnd\<close>, both being numbers.\<close>

definition span_ordered :: "val \<Rightarrow> bool" where
  "span_ordered y =
     (case (field y (str ''sourceStart''), field y (str ''sourceEnd'')) of
        (JNum a, JNum b) \<Rightarrow> a \<le> b
      | _ \<Rightarrow> False)"

text \<open>The span from 0 to \<open>len\<close>.\<close>

definition default_span :: "nat \<Rightarrow> val \<Rightarrow> bool" where
  "default_span len y =
     (field y (str ''sourceStart'') = JNum 0 \<and> field y (str ''sourceEnd'') = JNum (of_nat len))"


text \<open>
  The frame of post-processing: \<open>y\<close> is an object whose properties other than those of
  \<open>ks\<close> are the properties that the spread of \<open>x\<close> copies, with their values and in their
  order.
\<close>

definition same_but :: "ustring list \<Rightarrow> val \<Rightarrow> val \<Rightarrow> bool" where
  "same_but ks x y =
     (case y of
        JObj kvs \<Rightarrow>
          filter (\<lambda>p. fst p \<notin> set ks) kvs = filter (\<lambda>p. fst p \<notin> set ks) (spread x)
      | _ \<Rightarrow> False)"

text \<open>
  The elements that a \<^verbatim>\<open>map\<close> of lines 231--248 runs over: those of the field \<open>k\<close> of
  the parsed (or fallback) answer, none when the field is falsy.
\<close>

definition elements :: "world \<Rightarrow> ustring \<Rightarrow> ustring \<Rightarrow> ustring \<Rightarrow> val list" where
  "elements w inputText aiOutput k =
     (case js_or (field (fst (parse_answer w inputText aiOutput)) k) (JArr []) of
        JArr xs \<Rightarrow> xs
      | _ \<Rightarrow> [])"

text \<open>The elements of an array-valued field of a result.\<close>

definition items :: "val \<Rightarrow> ustring \<Rightarrow> val list" where
  "items res k = (case field res k of JArr xs \<Rightarrow> xs | _ \<Rightarrow> [])"

text \<open>
  The claim about the stripping in the words of the specification: the content between
  the first pair of fence markers of a text, when the text has such a pair.
\<close>

definition first_fenced :: "ustring \<Rightarrow> ustring option" where
  "first_fenced t =
     (case index_of t fence of
        None \<Rightarrow> None
      | Some i \<Rightarrow>
          (case index_of (drop (i + length fence) t) fence of
             None \<Rightarrow> None
           | Some j \<Rightarrow> Some (take j (drop (i + length fence) t))))"

section \<open>A request and its world, for the examples\<close>

text \<open>
  \<open>parses\<close> lists what \<^verbatim>\<open>JSON.parse\<close> returns for the texts of the example (it throws
  for the texts that are not listed); \<open>r\<close> is the reply of the provider. The provider name
  of the example request is a string, so that \<open>toString\<close> is not consulted.
\<close>

definition example_world :: "(ustring \<times> val) list \<Rightarrow> fetch_outcome \<Rightarrow> world" where
  "example_world parses r =
     \<lparr>json_parse = map_of parses,
      env = map_of [(str ''OPENAI_API_KEY'', str ''sk-test'')],
      reply = r,
      uuidv4 = (\<lambda>k. str ''uuid-'' @ dec k),
      toString = (\<lambda>v. []),
      engine_message = (\<lambda>e. str ''engine error'')\<rparr>"

definition example_request :: "ustring \<times> val" where
  \<open>example_request =
     (str ''{"providerName":"OpenAI","inputText":"Be kind."}'',
      JObj [(str ''providerName'', JStr (str ''OpenAI'')),
            (str ''inputText'', JStr (str ''Be kind.''))])\<close>

definition example_event :: event where
  "example_event = \<lparr>httpMethod = str ''POST'', event_body = Some (fst example_request)\<rparr>"

text \<open>The body of an ok reply of the provider \<^verbatim>\<open>OpenAI\<close> with the answer \<open>content\<close>.\<close>

definition openai_reply :: "ustring \<Rightarrow> fetch_outcome" where
  "openai_reply content =
     OkBody (Some (JObj [(str ''choices'',
       JArr [JObj [(str ''message'', JObj [(str ''content'', JStr content)])]])]))"

text \<open>
  The world in which the provider answers the example request with the text \<open>answer\<close>,
  which the stripping turns into a text with the parse result \<open>parsed\<close>.
\<close>

definition answering :: "ustring \<Rightarrow> (ustring \<times> val) list \<Rightarrow> world" where
  "answering answer parsed = example_world (example_request # parsed) (openai_reply answer)"

text \<open>
  An answer that matches the schema of the prompt, with the similarity \<open>s\<close> of its
  redundant group, and its text for the similarity 0.
\<close>

definition example_document :: "rat \<Rightarrow> val" where
  "example_document s =
     JObj [(str ''constraints'',
              JArr [JObj [(str ''id'', JStr (str ''c1'')),
                          (str ''text'', JStr (str ''Be kind.'')),
                          (str ''sourceStart'', JNum 0),
                          (str ''sourceEnd'', JNum 8)]]),
           (str ''redundantGroups'',
              JArr [JObj [(str ''id'', JStr (str ''g1'')),
                          (str ''constraints'',
                             JArr [JObj [(str ''id'', JStr (str ''c1'')),
                                         (str ''text'', JStr (str ''Be kind.'')),
                                         (str ''sourceStart'', JNum 0),
                                         (str ''sourceEnd'', JNum 8)]]),
                          (str ''similarity'', JNum s)]]),
           (str ''contradictions'', JArr []),
           (str ''originalText'', JStr (str ''Be kind.''))]"

definition example_document_text :: ustring where
  \<open>example_document_text =
     str ''{"constraints":[{"id":"c1","text":"Be kind.","sourceStart":0,"sourceEnd":8}],'' @
     str ''"redundantGroups":[{"id":"g1","constraints":[{"id":"c1","text":"Be kind.",'' @
     str ''"sourceStart":0,"sourceEnd":8}],"similarity":0}],'' @
     str ''"contradictions":[],"originalText":"Be kind."}''\<close>

section \<open>Occurrences of a separator\<close>

lemma starts_with_iff: "starts_with s p \<longleftrightarrow> (\<exists>t. s = p @ t)"
  by (induction s p rule: starts_with.induct) auto

lemma index_of_SomeD:
  "index_of s sep = Some i \<Longrightarrow>
     i \<le> length s \<and> starts_with (drop i s) sep \<and> (\<forall>j<i. \<not> starts_with (drop j s) sep)"
proof (induction s arbitrary: i)
  case Nil
  then show ?case by (auto split: if_splits)
next
  case (Cons c cs)
  show ?case
  proof (cases "starts_with (c # cs) sep")
    case True
    with Cons.prems show ?thesis by simp
  next
    case False
    with Cons.prems obtain k where k: "index_of cs sep = Some k" "i = Suc k" by auto
    from Cons.IH [OF k(1)] False k(2) show ?thesis
      by (auto simp: less_Suc_eq_0_disj)
  qed
qed

lemma index_of_NoneD:
  "index_of s sep = None \<Longrightarrow> j \<le> length s \<Longrightarrow> \<not> starts_with (drop j s) sep"
proof (induction s arbitrary: j)
  case Nil
  then show ?case by (cases sep) (auto split: if_splits)
next
  case (Cons c cs)
  then show ?case by (cases j) (auto split: if_splits)
qed

lemma includes_str_iff: "includes_str s sep \<longleftrightarrow> (\<exists>a b. s = a @ sep @ b)"
proof
  assume "includes_str s sep"
  then obtain i where i: "index_of s sep = Some i" by (auto simp: includes_str_def)
  from index_of_SomeD [OF i] obtain t where "drop i s = sep @ t"
    by (auto simp: starts_with_iff)
  then have "s = take i s @ sep @ t" by (metis append_take_drop_id)
  then show "\<exists>a b. s = a @ sep @ b" by blast
next
  assume "\<exists>a b. s = a @ sep @ b"
  then obtain a b where s: "s = a @ sep @ b" by blast
  have "starts_with (drop (length a) s) sep" by (simp add: s starts_with_iff)
  moreover have "length a \<le> length s" by (simp add: s)
  ultimately show "includes_str s sep"
    using index_of_NoneD [of s sep "length a"] by (auto simp: includes_str_def)
qed

lemma includes_str_longer: "includes_str s (p @ q) \<Longrightarrow> includes_str s p"
  unfolding includes_str_iff by (metis append.assoc)

lemma includes_str_part: "includes_str m sep \<Longrightarrow> includes_str (a @ m @ b) sep"
  unfolding includes_str_iff by (metis append.assoc)

lemma not_includes_take_first:
  assumes i: "index_of s sep = Some i" and sep: "sep \<noteq> []"
  shows "\<not> includes_str (take i s) sep"
proof
  assume "includes_str (take i s) sep"
  then obtain a b where ab: "take i s = a @ sep @ b" by (auto simp: includes_str_iff)
  have "length (take i s) \<le> i" by simp
  then have lt: "length a < i" using sep by (simp add: ab) (cases sep, auto)
  have "s = a @ sep @ (b @ drop i s)" by (metis ab append.assoc append_take_drop_id)
  then have "drop (length a) s = sep @ (b @ drop i s)" by (metis append_eq_conv_conj)
  then have "starts_with (drop (length a) s) sep" unfolding starts_with_iff by blast
  with index_of_SomeD [OF i] lt show False by blast
qed

lemma trim_part: "\<exists>a b. s = a @ trim s @ b"
proof -
  let ?d = "dropWhile is_ws s"
  have 1: "s = takeWhile is_ws s @ ?d" by simp
  have "rev ?d = takeWhile is_ws (rev ?d) @ dropWhile is_ws (rev ?d)" by simp
  then have "?d = rev (dropWhile is_ws (rev ?d)) @ rev (takeWhile is_ws (rev ?d))"
    by (metis rev_append rev_rev_ident)
  then have "?d = trim s @ rev (takeWhile is_ws (rev ?d))" by (simp add: trim_def)
  with 1 show ?thesis by metis
qed

lemma includes_str_trim: "includes_str (trim s) sep \<Longrightarrow> includes_str s sep"
  using trim_part [of s] includes_str_part by metis

lemma split_first: "sep \<noteq> [] \<Longrightarrow> at_index (split s sep) 0 = Some (first_piece s sep)"
  by (subst split.simps) (simp add: at_index_def first_piece_def split: option.splits)

lemma split_second:
  "sep \<noteq> [] \<Longrightarrow> index_of s sep = Some i \<Longrightarrow>
     at_index (split s sep) (Suc 0) = Some (first_piece (drop (i + length sep) s) sep)"
  by (subst split.simps, subst split.simps)
     (simp add: at_index_def first_piece_def split: option.splits)

lemma not_includes_first_piece: "sep \<noteq> [] \<Longrightarrow> \<not> includes_str (first_piece s sep) sep"
  by (auto simp: first_piece_def not_includes_take_first split: option.splits)
     (simp add: includes_str_def)

section \<open>Properties of the code-fence stripping\<close>

lemma fence_nonempty: "fence \<noteq> []" "fence_json \<noteq> []"
  by (simp_all add: fence_def fence_json_def str_def)

lemma fence_json_fence: "fence_json = fence @ str ''json''"
  by (simp add: fence_def fence_json_def str_def)

lemma between_fences_eq:
  assumes "m \<noteq> []" "index_of s m = Some i"
  shows "between_fences s m =
           Inr (trim (first_piece (first_piece (drop (i + length m) s) m) fence))"
  using assms by (simp add: between_fences_def split_second split_first fence_nonempty)

lemma between_fences_no_fence:
  assumes "m \<noteq> []" "includes_str s m" "between_fences s m = Inr u"
  shows "\<not> includes_str u fence"
proof -
  from assms(2) obtain i where i: "index_of s m = Some i" by (auto simp: includes_str_def)
  from between_fences_eq [OF assms(1) i] assms(3)
  have "u = trim (first_piece (first_piece (drop (i + length m) s) m) fence)" by simp
  then show ?thesis
    using includes_str_trim not_includes_first_piece [OF fence_nonempty(1)] by blast
qed

lemma stripCodeFence_unfenced: "\<not> includes_str t fence \<Longrightarrow> stripCodeFence t = Inr t"
  using includes_str_longer [of t fence "str ''json''"]
  by (auto simp: stripCodeFence_def fence_json_fence)

lemma stripCodeFence_no_fence: "stripCodeFence t = Inr u \<Longrightarrow> \<not> includes_str u fence"
  by (auto simp: stripCodeFence_def fence_nonempty split: if_splits
           dest: between_fences_no_fence [rotated 1])

lemma stripCodeFence_total: "\<exists>u. stripCodeFence t = Inr u"
  by (auto simp: stripCodeFence_def includes_str_def between_fences_eq fence_nonempty)

lemmas fence_eval =
  stripCodeFence_def between_fences_def includes_str_def fence_def fence_json_def str_def
  at_index_def split.simps trim_def is_ws_def

text \<open>
  Claim C7, as the handler has it. The stripping of lines 191--195 does not change a text
  that contains no fence marker at all, and it never throws: its result contains no fence
  marker, so that stripping the result again gives the same result.
\<close>

theorem stripCodeFence_idempotent:
  "(\<not> includes_str t fence \<longrightarrow> stripCodeFence t = Inr t) \<and>
   (\<exists>u. stripCodeFence t = Inr u \<and> stripCodeFence u = Inr u)"
  using stripCodeFence_unfenced stripCodeFence_no_fence stripCodeFence_total by metis

theorem stripCodeFence_idempotent_witness:
  "\<not> includes_str (str ''{}'') fence \<and> stripCodeFence (str ''{}'') = Inr (str ''{}'')"
proof -
  have 1: "\<not> includes_str (str ''{}'') fence" by (simp add: fence_eval)
  from stripCodeFence_idempotent [of "str ''{}''"] 1
  have "stripCodeFence (str ''{}'') = Inr (str ''{}'')" by blast
  with 1 show ?thesis by blast
qed

text \<open>
  Claim C7 as it is written fails: a text with one marker and no second one has no
  fenced region, and the stripping changes it. It keeps only what follows the marker:
  \<^verbatim>\<open>b\<close> of \<^verbatim>\<open>a```b\<close>, and nothing of two bullet lines that a marker follows.
\<close>

theorem unpaired_fence_changes_text:
  "first_fenced (str ''a```b'') = None \<and>
   stripCodeFence (str ''a```b'') = Inr (str ''b'') \<and>
   str ''b'' \<noteq> str ''a```b'' \<and>
   first_fenced (str ''- a'' @ [0x0A] @ str ''- b'' @ [0x0A] @ str ''```'') = None \<and>
   stripCodeFence (str ''- a'' @ [0x0A] @ str ''- b'' @ [0x0A] @ str ''```'') = Inr []"
proof (intro conjI)
  show "first_fenced (str ''a```b'') = None"
    by (simp add: first_fenced_def fence_def str_def)
  show "stripCodeFence (str ''a```b'') = Inr (str ''b'')" by (simp add: fence_eval)
  show "str ''b'' \<noteq> str ''a```b''" by (simp add: str_def)
  show "first_fenced (str ''- a'' @ [0x0A] @ str ''- b'' @ [0x0A] @ str ''```'') = None"
    by (simp add: first_fenced_def fence_def str_def)
  show "stripCodeFence (str ''- a'' @ [0x0A] @ str ''- b'' @ [0x0A] @ str ''```'') = Inr []"
    by (simp add: fence_eval)
qed

section \<open>The responses of the handler\<close>

lemma call_provider_no_response: "call_provider w p t \<noteq> Inr (Respond r)"
  by (auto simp: call_provider_def try_bind_def
           split: fetch_outcome.splits option.splits sum.splits val.splits)

lemma request_stage_Respond:
  assumes "request_stage w ev = Inr (Respond r)"
  shows "headers r = error_headers \<and> (statusCode r = 400 \<or> statusCode r = 500)"
  using assms call_provider_no_response
  by (auto simp: request_stage_def try_bind_def error_response_def Let_def
           split: option.splits sum.splits entry.splits if_splits val.splits)

lemma handler_not_post:
  "httpMethod ev \<noteq> str ''POST'' \<Longrightarrow>
     handler w ev = error_response 405 (str ''Method not allowed'')"
  by (simp add: handler_def)

lemma handler_reached:
  assumes "httpMethod ev = str ''POST''" "request_stage w ev = Inr (Continue t answer)"
    "stripCodeFence answer = Inr a"
  shows "handler w ev =
           (case reconcile w t a of
              Inr res \<Rightarrow> \<lparr>statusCode = 200, headers = success_headers, body = res\<rparr>
            | Inl e \<Rightarrow> failure_response w e)"
  using assms by (simp add: handler_def handler_try_def try_bind_def split: sum.splits)

lemma handler_cases:
  "(headers (handler w ev) = error_headers \<and> statusCode (handler w ev) \<in> {400, 405, 500}) \<or>
   (headers (handler w ev) = success_headers \<and> statusCode (handler w ev) = 200)"
proof (cases "httpMethod ev = str ''POST''")
  case False
  then show ?thesis by (simp add: handler_not_post error_response_def)
next
  case True
  show ?thesis
  proof (cases "request_stage w ev")
    case (Inl e)
    with True show ?thesis
      by (simp add: handler_def handler_try_def try_bind_def failure_response_def)
  next
    case (Inr st)
    show ?thesis
    proof (cases st)
      case (Respond r)
      with Inr True request_stage_Respond [of w ev r] show ?thesis
        by (auto simp: handler_def handler_try_def try_bind_def)
    next
      case (Continue t answer)
      obtain a where "stripCodeFence answer = Inr a" using stripCodeFence_total by blast
      from handler_reached [OF True _ this] Inr Continue show ?thesis
        by (auto simp: failure_response_def split: sum.splits)
    qed
  qed
qed

text \<open>
  Claim C9, as the handler has it. Every response carries
  \<^verbatim>\<open>Content-Type: application/json\<close> and \<^verbatim>\<open>Access-Control-Allow-Origin: *\<close>. The
  response 200 carries, with these two, \<^verbatim>\<open>Access-Control-Allow-Headers: Content-Type\<close>
  and \<^verbatim>\<open>Access-Control-Allow-Methods: POST, OPTIONS\<close>; every other response has the
  status 400, 405 or 500 and these two headers only.
\<close>

theorem response_headers:
  "map_of (headers (handler w ev)) (str ''Content-Type'') = Some (str ''application/json'') \<and>
   map_of (headers (handler w ev)) (str ''Access-Control-Allow-Origin'') = Some (str ''*'') \<and>
   (if statusCode (handler w ev) = 200 then headers (handler w ev) = success_headers
    else headers (handler w ev) = error_headers \<and> statusCode (handler w ev) \<in> {400, 405, 500})"
  using handler_cases [of w ev]
  by (auto simp: error_headers_def success_headers_def str_def)

text \<open>
  Claim C9 as it is written fails: the response 405 to a \<^verbatim>\<open>GET\<close> request has neither
  \<^verbatim>\<open>Access-Control-Allow-Methods\<close> nor \<^verbatim>\<open>Access-Control-Allow-Headers\<close>.
\<close>

theorem error_response_lacks_headers:
  "statusCode (handler (example_world [] (Rejected []))
                 \<lparr>httpMethod = str ''GET'', event_body = None\<rparr>) = 405 \<and>
   map_of (headers (handler (example_world [] (Rejected []))
                      \<lparr>httpMethod = str ''GET'', event_body = None\<rparr>))
     (str ''Access-Control-Allow-Methods'') = None \<and>
   map_of (headers (handler (example_world [] (Rejected []))
                      \<lparr>httpMethod = str ''GET'', event_body = None\<rparr>))
     (str ''Access-Control-Allow-Headers'') = None"
  by (simp add: handler_def error_response_def error_headers_def str_def)

section \<open>The reconciler step by step\<close>

lemma get_Inr_field: "get v k = Inr x \<Longrightarrow> field v k = x"
  by (simp add: field_def)

lemma get_total: "v \<noteq> JNull \<Longrightarrow> v \<noteq> JUndefined \<Longrightarrow> get v k = Inr (field v k)"
  by (cases v) (simp_all add: field_def)

lemma get_Inr_iff: "(\<exists>x. get v k = Inr x) \<longleftrightarrow> v \<noteq> JNull \<and> v \<noteq> JUndefined"
  by (cases v) simp_all

lemma map_elems_rel:
  "map_elems f n xs = Inr (ys, n') \<Longrightarrow> list_all2 (\<lambda>x y. \<exists>k k'. f k x = Inr (y, k')) xs ys"
proof (induction xs arbitrary: n ys)
  case Nil
  then show ?case by simp
next
  case (Cons x xs)
  then show ?case
    by (auto simp: try_bind_def split: sum.splits prod.splits)
qed

lemma map_elems_succeeds:
  "(\<And>x k. x \<in> set xs \<Longrightarrow> \<exists>y k'. f k x = Inr (y, k')) \<Longrightarrow> \<exists>ys n'. map_elems f n xs = Inr (ys, n')"
proof (induction xs arbitrary: n)
  case Nil
  then show ?case by simp
next
  case (Cons x xs)
  from Cons.prems [of x n] obtain y k' where y: "f n x = Inr (y, k')" by auto
  from Cons.IH [of k'] Cons.prems obtain ys n' where "map_elems f k' xs = Inr (ys, n')"
    by (metis list.set_intros(2))
  with y show ?case by (simp add: try_bind_def)
qed

lemma reconcileE:
  assumes "reconcile w t a = Inr res"
  obtains n0 n1 n2 n3 cs gs xs where
    "fst (parse_answer w t a) \<noteq> JNull" "fst (parse_answer w t a) \<noteq> JUndefined"
    "js_or (field (fst (parse_answer w t a)) (str ''constraints'')) (JArr []) = JArr (elements w t a (str ''constraints''))"
    "js_or (field (fst (parse_answer w t a)) (str ''redundantGroups'')) (JArr []) = JArr (elements w t a (str ''redundantGroups''))"
    "js_or (field (fst (parse_answer w t a)) (str ''contradictions'')) (JArr []) = JArr (elements w t a (str ''contradictions''))"
    "map_elems (fix_constraint w t) n0 (elements w t a (str ''constraints'')) = Inr (cs, n1)"
    "map_elems (fix_group w) n1 (elements w t a (str ''redundantGroups'')) = Inr (gs, n2)"
    "map_elems (fix_contradiction w) n2 (elements w t a (str ''contradictions'')) = Inr (xs, n3)"
    "res = JObj [(str ''constraints'', JArr cs), (str ''redundantGroups'', JArr gs),
                 (str ''contradictions'', JArr xs),
                 (str ''originalText'', js_or (field (fst (parse_answer w t a)) (str ''originalText'')) (JStr t))]"
proof -
  obtain ar n0 where pa: "parse_answer w t a = (ar, n0)" by (cases "parse_answer w t a")
  from assms pa obtain c where c: "get ar (str ''constraints'') = Inr c"
    by (auto simp: reconcile_def try_bind_def split: sum.splits)
  then have ar: "ar \<noteq> JNull" "ar \<noteq> JUndefined" by auto
  note g = get_total [OF ar]
  from assms pa obtain cs' n1 where 1: "js_map (fix_constraint w t) n0 (js_or (field ar (str ''constraints'')) (JArr [])) = Inr (cs', n1)"
    by (auto simp: reconcile_def try_bind_def g split: sum.splits)
  from assms pa 1 obtain gs' n2 where 2: "js_map (fix_group w) n1 (js_or (field ar (str ''redundantGroups'')) (JArr [])) = Inr (gs', n2)"
    by (auto simp: reconcile_def try_bind_def g split: sum.splits)
  from assms pa 1 2 obtain xs' n3 where 3: "js_map (fix_contradiction w) n2 (js_or (field ar (str ''contradictions'')) (JArr [])) = Inr (xs', n3)"
    by (auto simp: reconcile_def try_bind_def g split: sum.splits)
  from assms pa 1 2 3 have res: "res = JObj [(str ''constraints'', cs'), (str ''redundantGroups'', gs'),
                 (str ''contradictions'', xs'),
                 (str ''originalText'', js_or (field ar (str ''originalText'')) (JStr t))]"
    by (auto simp: reconcile_def try_bind_def g)
  from 1 obtain cs0 cs where c0: "js_or (field ar (str ''constraints'')) (JArr []) = JArr cs0"
      "map_elems (fix_constraint w t) n0 cs0 = Inr (cs, n1)" "cs' = JArr cs"
    by (auto simp: js_map_def try_bind_def split: val.splits sum.splits)
  from 2 obtain gs0 gs where g0: "js_or (field ar (str ''redundantGroups'')) (JArr []) = JArr gs0"
      "map_elems (fix_group w) n1 gs0 = Inr (gs, n2)" "gs' = JArr gs"
    by (auto simp: js_map_def try_bind_def split: val.splits sum.splits)
  from 3 obtain xs0 xs where x0: "js_or (field ar (str ''contradictions'')) (JArr []) = JArr xs0"
      "map_elems (fix_contradiction w) n2 xs0 = Inr (xs, n3)" "xs' = JArr xs"
    by (auto simp: js_map_def try_bind_def split: val.splits sum.splits)
  show thesis
    by (rule that [of n0 cs n1 gs n2 xs n3])
       (use pa ar c0 g0 x0 res in \<open>simp_all add: elements_def\<close>)
qed

lemma fix_constraint_succeeds:
  "x \<noteq> JNull \<Longrightarrow> x \<noteq> JUndefined \<Longrightarrow> \<exists>y k'. fix_constraint w t k x = Inr (y, k')"
  by (simp add: fix_constraint_def try_bind_def get_total split: prod.splits)

lemma fix_group_succeeds:
  "x \<noteq> JNull \<Longrightarrow> x \<noteq> JUndefined \<Longrightarrow> \<exists>y k'. fix_group w k x = Inr (y, k')"
  by (simp add: fix_group_def try_bind_def get_total split: prod.splits)

lemma fix_contradiction_succeeds:
  "x \<noteq> JNull \<Longrightarrow> x \<noteq> JUndefined \<Longrightarrow> \<exists>y k'. fix_contradiction w k x = Inr (y, k')"
  by (simp add: fix_contradiction_def try_bind_def get_total split: prod.splits)

lemma js_map_succeeds:
  assumes "collection_ok c"
    and "\<And>x k. x \<noteq> JNull \<Longrightarrow> x \<noteq> JUndefined \<Longrightarrow> \<exists>y k'. f k x = Inr (y, k')"
  shows "\<exists>ys n'. js_map f n (js_or c (JArr [])) = Inr (JArr ys, n')"
proof (cases "truthy c")
  case False
  then show ?thesis by (simp add: js_or_def js_map_def try_bind_def)
next
  case True
  with assms(1) obtain xs where c: "c = JArr xs" "list_all (\<lambda>x. x \<noteq> JNull \<and> x \<noteq> JUndefined) xs"
    by (cases c) (auto simp: collection_ok_def)
  have "\<exists>ys n'. map_elems f n xs = Inr (ys, n')"
    by (rule map_elems_succeeds) (use c(2) assms(2) in \<open>auto simp: list_all_iff\<close>)
  with c(1) show ?thesis by (auto simp: js_or_def js_map_def try_bind_def)
qed

lemma basic_constraints_eq:
  "basic_constraints w t n ls =
     (map (\<lambda>(k, l). basic_constraint w t k l) (zip [n..<n + length ls] ls), n + length ls)"
proof (induction ls arbitrary: n)
  case Nil
  then show ?case by simp
next
  case (Cons l ls)
  have "[n..<n + length (l # ls)] = n # [Suc n..<Suc n + length ls]"
    using upt_conv_Cons [of n "Suc n + length ls"] by simp
  with Cons [of "Suc n"] show ?case by simp
qed

lemma basic_constraints_objects:
  "x \<in> set (fst (basic_constraints w t n ls)) \<Longrightarrow> \<exists>kvs. x = JObj kvs"
  by (auto simp: basic_constraints_eq basic_constraint_def)

lemma fallback_eq:
  "fst (fallback w t a) =
     JObj [(str ''constraints'',
              JArr (fst (basic_constraints w t 0 (filter is_bullet_line (split a [0x0A]))))),
           (str ''redundantGroups'', JArr []),
           (str ''contradictions'', JArr []),
           (str ''originalText'', JStr t)]"
  by (simp add: fallback_def split: prod.splits)

lemma fallback_fields:
  "field (fst (fallback w t a)) (str ''constraints'') =
     JArr (fst (basic_constraints w t 0 (filter is_bullet_line (split a [0x0A]))))"
  "field (fst (fallback w t a)) (str ''redundantGroups'') = JArr []"
  "field (fst (fallback w t a)) (str ''contradictions'') = JArr []"
  "field (fst (fallback w t a)) (str ''originalText'') = JStr t"
  by (simp_all add: fallback_eq field_def str_def)

lemma parse_answer_ok:
  assumes "answer_ok (json_parse w a)"
  shows "fst (parse_answer w t a) \<noteq> JNull" "fst (parse_answer w t a) \<noteq> JUndefined"
    "collection_ok (field (fst (parse_answer w t a)) (str ''constraints''))"
    "collection_ok (field (fst (parse_answer w t a)) (str ''redundantGroups''))"
    "collection_ok (field (fst (parse_answer w t a)) (str ''contradictions''))"
    "text_ok (field (fst (parse_answer w t a)) (str ''originalText''))"
proof -
  have "fst (parse_answer w t a) \<noteq> JNull \<and> fst (parse_answer w t a) \<noteq> JUndefined \<and>
    collection_ok (field (fst (parse_answer w t a)) (str ''constraints'')) \<and>
    collection_ok (field (fst (parse_answer w t a)) (str ''redundantGroups'')) \<and>
    collection_ok (field (fst (parse_answer w t a)) (str ''contradictions'')) \<and>
    text_ok (field (fst (parse_answer w t a)) (str ''originalText''))"
  proof (cases "json_parse w a")
    case (Some v)
    then have "fst (parse_answer w t a) = v" by (simp add: parse_answer_def)
    with assms Some show ?thesis by (simp add: answer_ok_def)
  next
    case None
    have "list_all (\<lambda>x. x \<noteq> JNull \<and> x \<noteq> JUndefined) (fst (basic_constraints w t 0 ls))" for ls
      using basic_constraints_objects [of _ w t 0 ls] by (auto simp: list_all_iff)
    moreover from None have "fst (parse_answer w t a) = fst (fallback w t a)"
      by (simp add: parse_answer_def)
    ultimately show ?thesis
      by (simp add: fallback_fields collection_ok_def text_ok_def) (simp add: fallback_eq)
  qed
  then show "fst (parse_answer w t a) \<noteq> JNull" "fst (parse_answer w t a) \<noteq> JUndefined"
    "collection_ok (field (fst (parse_answer w t a)) (str ''constraints''))"
    "collection_ok (field (fst (parse_answer w t a)) (str ''redundantGroups''))"
    "collection_ok (field (fst (parse_answer w t a)) (str ''contradictions''))"
    "text_ok (field (fst (parse_answer w t a)) (str ''originalText''))"
    by simp_all
qed

lemma reconcile_succeeds:
  assumes "answer_ok (json_parse w a)"
  shows "\<exists>res. reconcile w t a = Inr res"
proof -
  obtain ar n0 where pa: "parse_answer w t a = (ar, n0)" by (cases "parse_answer w t a")
  note ok = parse_answer_ok [OF assms, of t, unfolded pa fst_conv]
  note g = get_total [OF ok(1,2)]
  obtain cs n1 where 1: "js_map (fix_constraint w t) n0 (js_or (field ar (str ''constraints'')) (JArr [])) = Inr (JArr cs, n1)"
    using js_map_succeeds [OF ok(3), of "fix_constraint w t" n0] fix_constraint_succeeds by blast
  obtain gs n2 where 2: "js_map (fix_group w) n1 (js_or (field ar (str ''redundantGroups'')) (JArr [])) = Inr (JArr gs, n2)"
    using js_map_succeeds [OF ok(4), of "fix_group w" n1] fix_group_succeeds by blast
  obtain xs n3 where 3: "js_map (fix_contradiction w) n2 (js_or (field ar (str ''contradictions'')) (JArr [])) = Inr (JArr xs, n3)"
    using js_map_succeeds [OF ok(5), of "fix_contradiction w" n2] fix_contradiction_succeeds by blast
  show ?thesis by (simp add: reconcile_def pa g try_bind_def 1 2 3)
qed

lemma reconcile_shape:
  assumes "reconcile w t a = Inr res" "text_ok (field (fst (parse_answer w t a)) (str ''originalText''))"
  shows "analysis_shape res"
proof -
  from assms(1) obtain cs gs xs where
    res: "res = JObj [(str ''constraints'', JArr cs), (str ''redundantGroups'', JArr gs),
                 (str ''contradictions'', JArr xs),
                 (str ''originalText'', js_or (field (fst (parse_answer w t a)) (str ''originalText'')) (JStr t))]"
    by (rule reconcileE)
  from assms(2) have "\<exists>s. js_or (field (fst (parse_answer w t a)) (str ''originalText'')) (JStr t) = JStr s"
    by (cases "field (fst (parse_answer w t a)) (str ''originalText'')") (auto simp: text_ok_def js_or_def)
  with res show ?thesis by (auto simp: analysis_shape_def)
qed

section \<open>Evaluation of the examples\<close>

lemma example_event_post: "httpMethod example_event = str ''POST''"
  by (simp add: example_event_def)

lemma request_stage_answering:
  "request_stage (answering answer parsed) example_event =
     Inr (Continue (str ''Be kind.'') (trim answer))"
  by (simp add: request_stage_def call_provider_def answering_def example_world_def
        example_request_def example_event_def openai_reply_def try_bind_def
        lookup_provider_def AI_PROVIDERS_def to_string_def chat_content_def str_def)

lemma json_parse_answering:
  "a \<noteq> fst example_request \<Longrightarrow> json_parse (answering answer parsed) a = map_of parsed a"
  by (simp add: answering_def example_world_def)

lemma uuidv4_answering: "uuidv4 (answering answer parsed) k = str ''uuid-'' @ dec k"
  by (simp add: answering_def example_world_def)

lemma message_answering: "message (answering answer parsed) TypeError = str ''engine error''"
  by (simp add: message_def answering_def example_world_def)

lemmas reconcile_eval =
  reconcile_def parse_answer_def fallback_def js_map_def js_or_def try_bind_def
  fix_constraint_def fix_group_def fix_contradiction_def id_or_fresh_def set_prop_def
  json_parse_answering uuidv4_answering example_request_def

lemma handler_answering:
  assumes "trim answer = answer" "stripCodeFence answer = Inr a"
  shows "handler (answering answer parsed) example_event =
           (case reconcile (answering answer parsed) (str ''Be kind.'') a of
              Inr res \<Rightarrow> \<lparr>statusCode = 200, headers = success_headers, body = res\<rparr>
            | Inl e \<Rightarrow> failure_response (answering answer parsed) e)"
  using handler_reached [OF example_event_post, of "answering answer parsed" "str ''Be kind.''" answer a]
    assms by (simp add: request_stage_answering)

section \<open>The shape of the result\<close>

text \<open>
  Claim C1, as the handler has it. For a request that reaches the reconciler, when the
  stripped answer does not parse, or parses to a value other than \<^verbatim>\<open>null\<close> whose
  three collections are each falsy or an array without \<^verbatim>\<open>null\<close> elements and
  whose \<^verbatim>\<open>originalText\<close> is falsy or a string, the handler answers 200 and the body
  has exactly the four top-level fields, three arrays and a string.
\<close>

theorem analysis_result_shape:
  assumes "httpMethod ev = str ''POST''"
    and "request_stage w ev = Inr (Continue inputText answer)"
    and "stripCodeFence answer = Inr aiOutput"
    and "answer_ok (json_parse w aiOutput)"
  shows "statusCode (handler w ev) = 200 \<and> analysis_shape (body (handler w ev))"
proof -
  from reconcile_succeeds [OF assms(4)] obtain res where res: "reconcile w inputText aiOutput = Inr res"
    by blast
  from reconcile_shape [OF res parse_answer_ok(6) [OF assms(4)]] have "analysis_shape res" .
  with handler_reached [OF assms(1-3)] res show ?thesis by simp
qed

theorem analysis_result_shape_witness:
  "httpMethod example_event = str ''POST'' \<and>
   request_stage (answering (str ''```json'' @ [0x0A] @ str ''{}'' @ [0x0A] @ str ''```'')
                    [(str ''{}'', JObj [])]) example_event =
     Inr (Continue (str ''Be kind.'')
            (str ''```json'' @ [0x0A] @ str ''{}'' @ [0x0A] @ str ''```'')) \<and>
   stripCodeFence (str ''```json'' @ [0x0A] @ str ''{}'' @ [0x0A] @ str ''```'') =
     Inr (str ''{}'') \<and>
   answer_ok (json_parse (answering (str ''```json'' @ [0x0A] @ str ''{}'' @ [0x0A] @ str ''```'')
                            [(str ''{}'', JObj [])]) (str ''{}'')) \<and>
   statusCode (handler (answering (str ''```json'' @ [0x0A] @ str ''{}'' @ [0x0A] @ str ''```'')
                          [(str ''{}'', JObj [])]) example_event) = 200 \<and>
   analysis_shape (body (handler (answering
       (str ''```json'' @ [0x0A] @ str ''{}'' @ [0x0A] @ str ''```'')
       [(str ''{}'', JObj [])]) example_event))"
proof -
  let ?answer = "str ''```json'' @ [0x0A] @ str ''{}'' @ [0x0A] @ str ''```''"
  let ?w = "answering ?answer [(str ''{}'', JObj [])]"
  have "trim ?answer = ?answer" by (simp add: trim_def is_ws_def str_def)
  then have 2: "request_stage ?w example_event = Inr (Continue (str ''Be kind.'') ?answer)"
    by (simp add: request_stage_answering)
  have 3: "stripCodeFence ?answer = Inr (str ''{}'')" by (simp add: fence_eval)
  have 4: "answer_ok (json_parse ?w (str ''{}''))"
    by (simp add: json_parse_answering example_request_def answer_ok_def collection_ok_def
          text_ok_def field_def str_def)
  from analysis_result_shape [OF example_event_post 2 3 4] example_event_post 2 3 4
  show ?thesis by blast
qed

text \<open>
  Claim C1 as it is written fails: a field of the wrong shape is not replaced by the
  default. With the answer \<^verbatim>\<open>{"constraints":"none"}\<close> the \<^verbatim>\<open>map\<close> of line 231
  throws and the handler answers 500 with a body of five fields; with the answer
  \<^verbatim>\<open>{"originalText":5}\<close> the handler answers 200 with the number 5 as
  \<^verbatim>\<open>originalText\<close>.
\<close>

theorem wrong_shape_not_substituted:
  \<open>statusCode (handler (answering (str ''{"constraints":"none"}'')
      [(str ''{"constraints":"none"}'', JObj [(str ''constraints'', JStr (str ''none''))])])
      example_event) = 500 \<and>
   \<not> analysis_shape (body (handler (answering (str ''{"constraints":"none"}'')
      [(str ''{"constraints":"none"}'', JObj [(str ''constraints'', JStr (str ''none''))])])
      example_event)) \<and>
   handler (answering (str ''{"originalText":5}'')
      [(str ''{"originalText":5}'', JObj [(str ''originalText'', JNum 5)])]) example_event =
     \<lparr>statusCode = 200, headers = success_headers,
      body = JObj [(str ''constraints'', JArr []),
                   (str ''redundantGroups'', JArr []),
                   (str ''contradictions'', JArr []),
                   (str ''originalText'', JNum 5)]\<rparr>\<close>
proof -
  let ?a = \<open>str ''{"constraints":"none"}''\<close>
  let ?w = \<open>answering ?a [(?a, JObj [(str ''constraints'', JStr (str ''none''))])]\<close>
  have 1: "trim ?a = ?a" by (simp add: trim_def is_ws_def str_def)
  have 2: "stripCodeFence ?a = Inr ?a" by (simp add: fence_eval)
  have 3: "reconcile ?w (str ''Be kind.'') ?a = Inl TypeError"
    by (simp add: reconcile_eval str_def)
  have h: "handler ?w example_event = failure_response ?w TypeError"
    by (simp add: handler_answering [OF 1 2] 3)
  let ?b = \<open>str ''{"originalText":5}''\<close>
  let ?v = \<open>answering ?b [(?b, JObj [(str ''originalText'', JNum 5)])]\<close>
  have 4: "trim ?b = ?b" by (simp add: trim_def is_ws_def str_def)
  have 5: "stripCodeFence ?b = Inr ?b" by (simp add: fence_eval)
  have 6: "reconcile ?v (str ''Be kind.'') ?b =
             Inr (JObj [(str ''constraints'', JArr []),
                        (str ''redundantGroups'', JArr []),
                        (str ''contradictions'', JArr []),
                        (str ''originalText'', JNum 5)])"
    by (simp add: reconcile_eval str_def)
  show ?thesis
    by (simp add: h failure_response_def analysis_shape_def handler_answering [OF 4 5] 6)
qed

section \<open>The echoed text\<close>




section \<open>Post-processing, element by element\<close>

lemma field_set_prop:
  "field (JObj (set_prop k v kvs)) k' = (if k' = k then v else field (JObj kvs) k')"
  by (simp add: field_def set_prop_def update_conv')

lemma filter_set_prop:
  "k \<in> set ks \<Longrightarrow>
     filter (\<lambda>p. fst p \<notin> set ks) (set_prop k v kvs) = filter (\<lambda>p. fst p \<notin> set ks) kvs"
  by (induction kvs) (auto simp: set_prop_def)

lemma same_but_set_prop:
  "k \<in> set ks \<Longrightarrow> same_but ks x (JObj (set_prop k v kvs)) = same_but ks x (JObj kvs)"
  by (simp add: same_but_def filter_set_prop)

lemma same_but_spread: "same_but ks x (JObj (spread x))"
  by (simp add: same_but_def)

lemma key_distinct:
  "str ''sourceEnd'' \<noteq> str ''sourceStart''" "str ''sourceStart'' \<noteq> str ''sourceEnd''"
  by (simp_all add: str_def)

lemma fix_constraint_result:
  assumes "fix_constraint w t n x = Inr (y, n')"
  shows "field y (str ''sourceStart'') = js_or (field x (str ''sourceStart'')) (JNum 0)"
    and "field y (str ''sourceEnd'') = js_or (field x (str ''sourceEnd'')) (JNum (of_nat (length t)))"
    and "same_but [str ''id'', str ''sourceStart'', str ''sourceEnd''] x y"
proof -
  from assms obtain i where "get x (str ''id'') = Inr i"
    by (auto simp: fix_constraint_def try_bind_def split: sum.splits)
  then have x: "x \<noteq> JNull" "x \<noteq> JUndefined" by auto
  from assms obtain i' where y: "y = JObj (set_prop (str ''sourceEnd'')
        (js_or (field x (str ''sourceEnd'')) (JNum (of_nat (length t))))
        (set_prop (str ''sourceStart'') (js_or (field x (str ''sourceStart'')) (JNum 0))
        (set_prop (str ''id'') i' (spread x))))"
    by (auto simp: fix_constraint_def try_bind_def get_total [OF x] split: prod.splits)
  show "field y (str ''sourceStart'') = js_or (field x (str ''sourceStart'')) (JNum 0)"
    by (simp add: y field_set_prop key_distinct)
  show "field y (str ''sourceEnd'') = js_or (field x (str ''sourceEnd'')) (JNum (of_nat (length t)))"
    by (simp add: y field_set_prop)
  show "same_but [str ''id'', str ''sourceStart'', str ''sourceEnd''] x y"
    by (simp add: y same_but_set_prop same_but_spread)
qed

lemma fix_group_result:
  assumes "fix_group w n x = Inr (y, n')"
  shows "field y (str ''similarity'') = js_or (field x (str ''similarity'')) (JNum 0.8)"
    and "same_but [str ''id'', str ''similarity''] x y"
proof -
  from assms obtain i where "get x (str ''id'') = Inr i"
    by (auto simp: fix_group_def try_bind_def split: sum.splits)
  then have x: "x \<noteq> JNull" "x \<noteq> JUndefined" by auto
  from assms obtain i' where y: "y = JObj (set_prop (str ''similarity'')
        (js_or (field x (str ''similarity'')) (JNum 0.8)) (set_prop (str ''id'') i' (spread x)))"
    by (auto simp: fix_group_def try_bind_def get_total [OF x] split: prod.splits)
  show "field y (str ''similarity'') = js_or (field x (str ''similarity'')) (JNum 0.8)"
    by (simp add: y field_set_prop)
  show "same_but [str ''id'', str ''similarity''] x y"
    by (simp add: y same_but_set_prop same_but_spread)
qed

lemma fix_contradiction_result:
  assumes "fix_contradiction w n x = Inr (y, n')"
  shows "field y (str ''confidence'') = js_or (field x (str ''confidence'')) (JNum 0.8)"
    and "same_but [str ''id'', str ''confidence''] x y"
proof -
  from assms obtain i where "get x (str ''id'') = Inr i"
    by (auto simp: fix_contradiction_def try_bind_def split: sum.splits)
  then have x: "x \<noteq> JNull" "x \<noteq> JUndefined" by auto
  from assms obtain i' where y: "y = JObj (set_prop (str ''confidence'')
        (js_or (field x (str ''confidence'')) (JNum 0.8)) (set_prop (str ''id'') i' (spread x)))"
    by (auto simp: fix_contradiction_def try_bind_def get_total [OF x] split: prod.splits)
  show "field y (str ''confidence'') = js_or (field x (str ''confidence'')) (JNum 0.8)"
    by (simp add: y field_set_prop)
  show "same_but [str ''id'', str ''confidence''] x y"
    by (simp add: y same_but_set_prop same_but_spread)
qed

lemma score_rule_js_or:
  assumes "field y k = js_or (field x k) (JNum 0.8)"
  shows "score_rule k x y \<and> (score_absent_or_unit (field x k) \<longrightarrow> in_unit (field y k))"
  using assms
  by (cases "field x k") (auto simp: score_rule_def score_absent_or_unit_def in_unit_def js_or_def)

lemma span_rule_default:
  assumes "field y (str ''sourceStart'') = js_or (field x (str ''sourceStart'')) (JNum 0)"
    and "field y (str ''sourceEnd'') = js_or (field x (str ''sourceEnd'')) (JNum (of_nat len))"
  shows "span_rule len x y \<and>
         (absent (field x (str ''sourceStart'')) \<and> absent (field x (str ''sourceEnd'')) \<longrightarrow>
            default_span len y \<and> span_ordered y)"
  using assms
  by (cases "field x (str ''sourceStart'')"; cases "field x (str ''sourceEnd'')")
     (auto simp: span_rule_def span_ordered_def default_span_def absent_def js_or_def)

lemma reconcile_elements:
  assumes "reconcile w t a = Inr res"
  shows "list_all2 (\<lambda>x y. \<exists>k k'. fix_constraint w t k x = Inr (y, k'))
           (elements w t a (str ''constraints'')) (items res (str ''constraints''))"
    and "list_all2 (\<lambda>x y. \<exists>k k'. fix_group w k x = Inr (y, k'))
           (elements w t a (str ''redundantGroups'')) (items res (str ''redundantGroups''))"
    and "list_all2 (\<lambda>x y. \<exists>k k'. fix_contradiction w k x = Inr (y, k'))
           (elements w t a (str ''contradictions'')) (items res (str ''contradictions''))"
proof -
  from assms obtain n0 n1 n2 n3 cs gs xs where
    m: "map_elems (fix_constraint w t) n0 (elements w t a (str ''constraints'')) = Inr (cs, n1)"
       "map_elems (fix_group w) n1 (elements w t a (str ''redundantGroups'')) = Inr (gs, n2)"
       "map_elems (fix_contradiction w) n2 (elements w t a (str ''contradictions'')) = Inr (xs, n3)"
    and res: "res = JObj [(str ''constraints'', JArr cs), (str ''redundantGroups'', JArr gs),
                 (str ''contradictions'', JArr xs),
                 (str ''originalText'', js_or (field (fst (parse_answer w t a)) (str ''originalText'')) (JStr t))]"
    by (rule reconcileE)
  have i: "items res (str ''constraints'') = cs" "items res (str ''redundantGroups'') = gs"
    "items res (str ''contradictions'') = xs"
    by (simp_all add: res items_def field_def str_def)
  show "list_all2 (\<lambda>x y. \<exists>k k'. fix_constraint w t k x = Inr (y, k'))
           (elements w t a (str ''constraints'')) (items res (str ''constraints''))"
    using map_elems_rel [OF m(1)] by (simp add: i)
  show "list_all2 (\<lambda>x y. \<exists>k k'. fix_group w k x = Inr (y, k'))
           (elements w t a (str ''redundantGroups'')) (items res (str ''redundantGroups''))"
    using map_elems_rel [OF m(2)] by (simp add: i)
  show "list_all2 (\<lambda>x y. \<exists>k k'. fix_contradiction w k x = Inr (y, k'))
           (elements w t a (str ''contradictions'')) (items res (str ''contradictions''))"
    using map_elems_rel [OF m(3)] by (simp add: i)
qed

lemma dec_small: "dec 0 = str ''0''" "dec (Suc 0) = str ''1''" "dec (Suc (Suc 0)) = str ''2''"
  by (simp_all add: dec.simps str_def)

lemmas example_eval =
  reconcile_eval dec_small basic_constraint_def is_bullet_line_def strip_bullet_def bullet_def
  trim_def is_ws_def split.simps str_def

lemmas elements_eval =
  elements_def items_def parse_answer_def field_def js_or_def json_parse_answering
  example_request_def str_def

lemma handler_answering_ok:
  assumes "trim answer = answer" "stripCodeFence answer = Inr a"
    and "reconcile (answering answer parsed) (str ''Be kind.'') a = Inr res"
  shows "handler (answering answer parsed) example_event =
           \<lparr>statusCode = 200, headers = success_headers, body = res\<rparr>"
  using handler_answering [OF assms(1,2), of parsed] assms(3) by simp

section \<open>Similarity and confidence\<close>

text \<open>
  Claim C2, as the handler has it. In a reconciled result, a similarity or confidence
  that the answer left out (or gave as \<^verbatim>\<open>null\<close>) is 0.8, and one that the answer
  gave as a number other than zero is that number; so the score lies in \<open>[0, 1]\<close> whenever
  the answer left it out or gave a number of \<open>(0, 1]\<close>. No range is checked.
\<close>

theorem scores_after_reconcile:
  assumes "reconcile w inputText aiOutput = Inr res"
  shows "list_all2 (\<lambda>x y. score_rule (str ''similarity'') x y \<and>
             (score_absent_or_unit (field x (str ''similarity'')) \<longrightarrow>
                in_unit (field y (str ''similarity''))))
           (elements w inputText aiOutput (str ''redundantGroups''))
           (items res (str ''redundantGroups'')) \<and>
         list_all2 (\<lambda>x y. score_rule (str ''confidence'') x y \<and>
             (score_absent_or_unit (field x (str ''confidence'')) \<longrightarrow>
                in_unit (field y (str ''confidence''))))
           (elements w inputText aiOutput (str ''contradictions''))
           (items res (str ''contradictions''))"
proof
  show "list_all2 (\<lambda>x y. score_rule (str ''similarity'') x y \<and>
             (score_absent_or_unit (field x (str ''similarity'')) \<longrightarrow>
                in_unit (field y (str ''similarity''))))
           (elements w inputText aiOutput (str ''redundantGroups''))
           (items res (str ''redundantGroups''))"
    by (rule list_all2_mono [OF reconcile_elements(2) [OF assms]])
       (use fix_group_result(1) score_rule_js_or in blast)
  show "list_all2 (\<lambda>x y. score_rule (str ''confidence'') x y \<and>
             (score_absent_or_unit (field x (str ''confidence'')) \<longrightarrow>
                in_unit (field y (str ''confidence''))))
           (elements w inputText aiOutput (str ''contradictions''))
           (items res (str ''contradictions''))"
    by (rule list_all2_mono [OF reconcile_elements(3) [OF assms]])
       (use fix_contradiction_result(1) score_rule_js_or in blast)
qed

theorem scores_after_reconcile_witness:
  \<open>reconcile (answering (str ''{"redundantGroups":[{"id":"g1","constraints":[]}]}'')
       [(str ''{"redundantGroups":[{"id":"g1","constraints":[]}]}'',
         JObj [(str ''redundantGroups'',
           JArr [JObj [(str ''id'', JStr (str ''g1'')), (str ''constraints'', JArr [])]])])])
     (str ''Be kind.'') (str ''{"redundantGroups":[{"id":"g1","constraints":[]}]}'') =
     Inr (JObj [(str ''constraints'', JArr []),
                (str ''redundantGroups'',
                   JArr [JObj [(str ''id'', JStr (str ''g1'')), (str ''constraints'', JArr []),
                               (str ''similarity'', JNum 0.8)]]),
                (str ''contradictions'', JArr []),
                (str ''originalText'', JStr (str ''Be kind.''))]) \<and>
   score_absent_or_unit
     (field (JObj [(str ''id'', JStr (str ''g1'')), (str ''constraints'', JArr [])])
        (str ''similarity'')) \<and>
   in_unit
     (field (JObj [(str ''id'', JStr (str ''g1'')), (str ''constraints'', JArr []),
                   (str ''similarity'', JNum 0.8)])
        (str ''similarity''))\<close>
proof -
  let ?a = \<open>str ''{"redundantGroups":[{"id":"g1","constraints":[]}]}''\<close>
  let ?g = "JObj [(str ''id'', JStr (str ''g1'')), (str ''constraints'', JArr [])]"
  let ?g' = "JObj [(str ''id'', JStr (str ''g1'')), (str ''constraints'', JArr []),
                   (str ''similarity'', JNum 0.8)]"
  let ?w = "answering ?a [(?a, JObj [(str ''redundantGroups'', JArr [?g])])]"
  let ?res = "JObj [(str ''constraints'', JArr []), (str ''redundantGroups'', JArr [?g']),
                    (str ''contradictions'', JArr []),
                    (str ''originalText'', JStr (str ''Be kind.''))]"
  have h: "reconcile ?w (str ''Be kind.'') ?a = Inr ?res" by (simp add: example_eval)
  have e: "elements ?w (str ''Be kind.'') ?a (str ''redundantGroups'') = [?g]"
    by (simp add: elements_eval)
  have i: "items ?res (str ''redundantGroups'') = [?g']" by (simp add: elements_eval)
  have s: "score_absent_or_unit (field ?g (str ''similarity''))"
    by (simp add: score_absent_or_unit_def field_def str_def)
  from scores_after_reconcile [OF h]
  have "list_all2 (\<lambda>x y. score_rule (str ''similarity'') x y \<and>
             (score_absent_or_unit (field x (str ''similarity'')) \<longrightarrow>
                in_unit (field y (str ''similarity''))))
           (elements ?w (str ''Be kind.'') ?a (str ''redundantGroups''))
           (items ?res (str ''redundantGroups''))" by (rule conjunct1)
  then have "score_rule (str ''similarity'') ?g ?g' \<and>
             (score_absent_or_unit (field ?g (str ''similarity'')) \<longrightarrow>
                in_unit (field ?g' (str ''similarity'')))"
    unfolding e i list_all2_Cons list_all2_Nil by blast
  then have "score_absent_or_unit (field ?g (str ''similarity'')) \<longrightarrow>
               in_unit (field ?g' (str ''similarity''))" by (rule conjunct2)
  with s have "in_unit (field ?g' (str ''similarity''))" by (rule rev_mp)
  with h s show ?thesis by (intro conjI)
qed

text \<open>
  Claim C2 as it is written fails: a similarity out of \<open>[0, 1]\<close> is not replaced. The
  answer gives the similarity 1.5 and the response carries 1.5.
\<close>

theorem out_of_range_score_kept:
  \<open>handler (answering (str ''{"redundantGroups":[{"id":"g1","constraints":[],"similarity":1.5}]}'')
      [(str ''{"redundantGroups":[{"id":"g1","constraints":[],"similarity":1.5}]}'',
        JObj [(str ''redundantGroups'',
          JArr [JObj [(str ''id'', JStr (str ''g1'')), (str ''constraints'', JArr []),
                      (str ''similarity'', JNum 1.5)]])])]) example_event =
     \<lparr>statusCode = 200, headers = success_headers,
      body = JObj [(str ''constraints'', JArr []),
                   (str ''redundantGroups'',
                      JArr [JObj [(str ''id'', JStr (str ''g1'')), (str ''constraints'', JArr []),
                                  (str ''similarity'', JNum 1.5)]]),
                   (str ''contradictions'', JArr []),
                   (str ''originalText'', JStr (str ''Be kind.''))]\<rparr> \<and>
   \<not> in_unit (JNum 1.5)\<close>
proof -
  let ?a = \<open>str ''{"redundantGroups":[{"id":"g1","constraints":[],"similarity":1.5}]}''\<close>
  let ?p = "[(?a, JObj [(str ''redundantGroups'',
          JArr [JObj [(str ''id'', JStr (str ''g1'')), (str ''constraints'', JArr []),
                      (str ''similarity'', JNum 1.5)]])])]"
  have 1: "trim ?a = ?a" by (simp add: trim_def is_ws_def str_def)
  have 2: "stripCodeFence ?a = Inr ?a" by (simp add: fence_eval)
  have 3: "reconcile (answering ?a ?p) (str ''Be kind.'') ?a =
     Inr (JObj [(str ''constraints'', JArr []),
                   (str ''redundantGroups'',
                      JArr [JObj [(str ''id'', JStr (str ''g1'')), (str ''constraints'', JArr []),
                                  (str ''similarity'', JNum 1.5)]]),
                   (str ''contradictions'', JArr []),
                   (str ''originalText'', JStr (str ''Be kind.''))])"
    by (simp add: example_eval)
  have 4: "\<not> in_unit (JNum 1.5)" by (simp add: in_unit_def)
  from handler_answering_ok [OF 1 2 3] 4 show ?thesis by (rule conjI)
qed

section \<open>The spans of the constraints\<close>

lemma list_all2_list_all:
  "list_all2 P xs ys \<Longrightarrow> (\<And>x y. x \<in> set xs \<Longrightarrow> P x y \<Longrightarrow> Q y) \<Longrightarrow> list_all Q ys"
  by (induction rule: list_all2_induct) auto

lemma basic_constraint_fields:
  "field (basic_constraint w t k l) (str ''sourceStart'') = JNum 0"
  "field (basic_constraint w t k l) (str ''sourceEnd'') = JNum (of_nat (length t))"
  by (simp_all add: basic_constraint_def field_def str_def)

lemma elements_fallback:
  assumes "json_parse w a = None"
  shows "\<forall>x \<in> set (elements w t a (str ''constraints'')). \<exists>k l. x = basic_constraint w t k l"
  using assms
  by (auto simp: elements_def parse_answer_def fallback_fields js_or_def basic_constraints_eq)

lemma fallback_default_spans:
  assumes "reconcile w t a = Inr res" "json_parse w a = None"
  shows "list_all (\<lambda>y. default_span (length t) y \<and> span_ordered y) (items res (str ''constraints''))"
proof (rule list_all2_list_all [OF reconcile_elements(1) [OF assms(1)]])
  fix x y
  assume "x \<in> set (elements w t a (str ''constraints''))"
    and "\<exists>k k'. fix_constraint w t k x = Inr (y, k')"
  then obtain k l n n' where x: "x = basic_constraint w t k l"
    and f: "fix_constraint w t n x = Inr (y, n')"
    using elements_fallback [OF assms(2), of t] by blast
  from fix_constraint_result(1,2) [OF f]
  have "field y (str ''sourceStart'') = JNum 0"
    "field y (str ''sourceEnd'') = JNum (of_nat (length t))"
    by (simp_all add: x basic_constraint_fields js_or_def)
  then show "default_span (length t) y \<and> span_ordered y"
    by (simp add: default_span_def span_ordered_def)
qed

text \<open>
  Claim C8, as the handler has it. In a reconciled result, a constraint whose offsets
  the answer left out (or gave as \<^verbatim>\<open>null\<close>) has \<^verbatim>\<open>sourceStart\<close> 0 and
  \<^verbatim>\<open>sourceEnd\<close> the length of the input text, so that
  \<^verbatim>\<open>sourceStart <= sourceEnd\<close>, and so has every constraint of the fallback; a
  \<^verbatim>\<open>sourceStart\<close> given as a number, and a \<^verbatim>\<open>sourceEnd\<close> given as a number other
  than zero, are returned as they are. The offsets that the answer gives are not compared.
\<close>

theorem spans_after_reconcile:
  assumes "reconcile w inputText aiOutput = Inr res"
  shows "list_all2 (\<lambda>x y. span_rule (length inputText) x y \<and>
             (absent (field x (str ''sourceStart'')) \<and> absent (field x (str ''sourceEnd'')) \<longrightarrow>
                default_span (length inputText) y \<and> span_ordered y))
           (elements w inputText aiOutput (str ''constraints''))
           (items res (str ''constraints'')) \<and>
         (json_parse w aiOutput = None \<longrightarrow>
            list_all (\<lambda>y. default_span (length inputText) y \<and> span_ordered y)
              (items res (str ''constraints'')))"
proof
  show "list_all2 (\<lambda>x y. span_rule (length inputText) x y \<and>
             (absent (field x (str ''sourceStart'')) \<and> absent (field x (str ''sourceEnd'')) \<longrightarrow>
                default_span (length inputText) y \<and> span_ordered y))
           (elements w inputText aiOutput (str ''constraints''))
           (items res (str ''constraints''))"
    by (rule list_all2_mono [OF reconcile_elements(1) [OF assms]])
       (use fix_constraint_result(1,2) span_rule_default in blast)
  show "json_parse w aiOutput = None \<longrightarrow>
          list_all (\<lambda>y. default_span (length inputText) y \<and> span_ordered y)
            (items res (str ''constraints''))"
    using fallback_default_spans [OF assms] by blast
qed

theorem spans_after_reconcile_witness:
  \<open>reconcile (answering (str ''{"constraints":[{"text":"Be kind."}]}'')
       [(str ''{"constraints":[{"text":"Be kind."}]}'',
         JObj [(str ''constraints'', JArr [JObj [(str ''text'', JStr (str ''Be kind.''))]])])])
     (str ''Be kind.'') (str ''{"constraints":[{"text":"Be kind."}]}'') =
     Inr (JObj [(str ''constraints'',
                   JArr [JObj [(str ''text'', JStr (str ''Be kind.'')),
                               (str ''id'', JStr (str ''uuid-0'')),
                               (str ''sourceStart'', JNum 0),
                               (str ''sourceEnd'', JNum 8)]]),
                (str ''redundantGroups'', JArr []),
                (str ''contradictions'', JArr []),
                (str ''originalText'', JStr (str ''Be kind.''))]) \<and>
   absent (field (JObj [(str ''text'', JStr (str ''Be kind.''))]) (str ''sourceStart'')) \<and>
   absent (field (JObj [(str ''text'', JStr (str ''Be kind.''))]) (str ''sourceEnd'')) \<and>
   default_span 8 (JObj [(str ''text'', JStr (str ''Be kind.'')),
                         (str ''id'', JStr (str ''uuid-0'')),
                         (str ''sourceStart'', JNum 0),
                         (str ''sourceEnd'', JNum 8)]) \<and>
   span_ordered (JObj [(str ''text'', JStr (str ''Be kind.'')),
                       (str ''id'', JStr (str ''uuid-0'')),
                       (str ''sourceStart'', JNum 0),
                       (str ''sourceEnd'', JNum 8)]) \<and>
   json_parse (answering (str ''- Be kind'') []) (str ''- Be kind'') = None \<and>
   reconcile (answering (str ''- Be kind'') []) (str ''Be kind.'') (str ''- Be kind'') =
     Inr (JObj [(str ''constraints'',
                   JArr [JObj [(str ''id'', JStr (str ''uuid-0'')),
                               (str ''text'', JStr (str ''Be kind'')),
                               (str ''sourceStart'', JNum 0),
                               (str ''sourceEnd'', JNum 8)]]),
                (str ''redundantGroups'', JArr []),
                (str ''contradictions'', JArr []),
                (str ''originalText'', JStr (str ''Be kind.''))]) \<and>
   default_span 8 (JObj [(str ''id'', JStr (str ''uuid-0'')),
                         (str ''text'', JStr (str ''Be kind'')),
                         (str ''sourceStart'', JNum 0),
                         (str ''sourceEnd'', JNum 8)])\<close>
proof -
  let ?a = \<open>str ''{"constraints":[{"text":"Be kind."}]}''\<close>
  let ?c = "JObj [(str ''text'', JStr (str ''Be kind.''))]"
  let ?c' = "JObj [(str ''text'', JStr (str ''Be kind.'')),
                   (str ''id'', JStr (str ''uuid-0'')),
                   (str ''sourceStart'', JNum 0),
                   (str ''sourceEnd'', JNum 8)]"
  let ?w = "answering ?a [(?a, JObj [(str ''constraints'', JArr [?c])])]"
  let ?res = "JObj [(str ''constraints'', JArr [?c']), (str ''redundantGroups'', JArr []),
                    (str ''contradictions'', JArr []),
                    (str ''originalText'', JStr (str ''Be kind.''))]"
  have l: "length (str ''Be kind.'') = 8" by (simp add: str_def)
  have h: "reconcile ?w (str ''Be kind.'') ?a = Inr ?res" by (simp add: example_eval)
  have e: "elements ?w (str ''Be kind.'') ?a (str ''constraints'') = [?c]"
    by (simp add: elements_eval)
  have i: "items ?res (str ''constraints'') = [?c']" by (simp add: elements_eval)
  have s: "absent (field ?c (str ''sourceStart'')) \<and> absent (field ?c (str ''sourceEnd''))"
    by (simp add: absent_def field_def str_def)
  from spans_after_reconcile [OF h]
  have "span_rule 8 ?c ?c' \<and>
        (absent (field ?c (str ''sourceStart'')) \<and> absent (field ?c (str ''sourceEnd'')) \<longrightarrow>
           default_span 8 ?c' \<and> span_ordered ?c')"
    unfolding e i l list_all2_Cons list_all2_Nil by blast
  with s have 1: "default_span 8 ?c' \<and> span_ordered ?c'" by blast
  let ?b = "str ''- Be kind''"
  let ?d = "JObj [(str ''id'', JStr (str ''uuid-0'')),
                  (str ''text'', JStr (str ''Be kind'')),
                  (str ''sourceStart'', JNum 0),
                  (str ''sourceEnd'', JNum 8)]"
  let ?res2 = "JObj [(str ''constraints'', JArr [?d]), (str ''redundantGroups'', JArr []),
                     (str ''contradictions'', JArr []),
                     (str ''originalText'', JStr (str ''Be kind.''))]"
  have n: "json_parse (answering ?b []) ?b = None"
    by (simp add: json_parse_answering example_request_def str_def)
  have h2: "reconcile (answering ?b []) (str ''Be kind.'') ?b = Inr ?res2"
    by (simp add: example_eval)
  have i2: "items ?res2 (str ''constraints'') = [?d]" by (simp add: elements_eval)
  from spans_after_reconcile [OF h2] n
  have "list_all (\<lambda>y. default_span 8 y \<and> span_ordered y) (items ?res2 (str ''constraints''))"
    unfolding l by blast
  then have 2: "default_span 8 ?d" unfolding i2 by simp
  from h s 1 n h2 2 show ?thesis by blast
qed

text \<open>
  Claim C8 as it is written fails: the answer gives a constraint the offsets 10 and 5 and
  the response carries them, with \<^verbatim>\<open>sourceStart\<close> above \<^verbatim>\<open>sourceEnd\<close>.
\<close>

theorem reversed_span_kept:
  \<open>handler (answering
      (str ''{"constraints":[{"id":"c1","text":"Be kind.","sourceStart":10,"sourceEnd":5}]}'')
      [(str ''{"constraints":[{"id":"c1","text":"Be kind.","sourceStart":10,"sourceEnd":5}]}'',
        JObj [(str ''constraints'',
          JArr [JObj [(str ''id'', JStr (str ''c1'')), (str ''text'', JStr (str ''Be kind.'')),
                      (str ''sourceStart'', JNum 10), (str ''sourceEnd'', JNum 5)]])])])
      example_event =
     \<lparr>statusCode = 200, headers = success_headers,
      body = JObj [(str ''constraints'',
                      JArr [JObj [(str ''id'', JStr (str ''c1'')),
                                  (str ''text'', JStr (str ''Be kind.'')),
                                  (str ''sourceStart'', JNum 10),
                                  (str ''sourceEnd'', JNum 5)]]),
                   (str ''redundantGroups'', JArr []),
                   (str ''contradictions'', JArr []),
                   (str ''originalText'', JStr (str ''Be kind.''))]\<rparr> \<and>
   \<not> span_ordered (JObj [(str ''id'', JStr (str ''c1'')),
                          (str ''text'', JStr (str ''Be kind.'')),
                          (str ''sourceStart'', JNum 10),
                          (str ''sourceEnd'', JNum 5)])\<close>
proof -
  let ?a = \<open>str ''{"constraints":[{"id":"c1","text":"Be kind.","sourceStart":10,"sourceEnd":5}]}''\<close>
  let ?c = "JObj [(str ''id'', JStr (str ''c1'')), (str ''text'', JStr (str ''Be kind.'')),
                  (str ''sourceStart'', JNum 10), (str ''sourceEnd'', JNum 5)]"
  let ?p = "[(?a, JObj [(str ''constraints'', JArr [?c])])]"
  have 1: "trim ?a = ?a" by (simp add: trim_def is_ws_def str_def)
  have 2: "stripCodeFence ?a = Inr ?a" by (simp add: fence_eval)
  have 3: "reconcile (answering ?a ?p) (str ''Be kind.'') ?a =
     Inr (JObj [(str ''constraints'', JArr [?c]),
                (str ''redundantGroups'', JArr []),
                (str ''contradictions'', JArr []),
                (str ''originalText'', JStr (str ''Be kind.''))])"
    by (simp add: example_eval)
  have 4: "\<not> span_ordered ?c" by (simp add: span_ordered_def field_def str_def)
  from handler_answering_ok [OF 1 2 3] 4 show ?thesis by (rule conjI)
qed

section \<open>The frame of post-processing\<close>

















section \<open>Zero scores and indented bullets\<close>

text \<open>
  Claim C3 at an answer that matches the schema, with the similarity 0 of its redundant
  group: the response is the parsed document with the similarity 0.8 in place of 0.
\<close>

theorem zero_similarity_replaced:
  "handler (answering example_document_text [(example_document_text, example_document 0)])
     example_event =
     \<lparr>statusCode = 200, headers = success_headers, body = example_document 0.8\<rparr> \<and>
   example_document 0.8 \<noteq> example_document 0"
proof -
  let ?p = "[(example_document_text, example_document 0)]"
  have 1: "trim example_document_text = example_document_text"
    by (simp add: example_document_text_def trim_def is_ws_def str_def)
  have 2: "stripCodeFence example_document_text = Inr example_document_text"
    by (simp add: example_document_text_def fence_eval)
  have n: "example_document_text \<noteq> fst example_request"
    by (simp add: example_document_text_def example_request_def str_def)
  have 3: "reconcile (answering example_document_text ?p) (str ''Be kind.'')
             example_document_text = Inr (example_document 0.8)"
    by (simp add: reconcile_def parse_answer_def json_parse_answering [OF n])
       (simp add: example_document_def example_eval)
  have 4: "example_document 0.8 \<noteq> example_document 0" by (simp add: example_document_def)
  from handler_answering_ok [OF 1 2 3] 4 show ?thesis by (rule conjI)
qed

text \<open>
  Claim C4 at an answer of three bullet lines, the second with no space after its marker
  and the third indented: the handler answers 200 by the fallback, with one constraint
  for each line, and the texts of the second and the third constraint keep their marker.
\<close>

theorem bullet_marker_kept:
  "handler (answering (str ''- Be kind'' @ [0x0A] @ str ''-Be brief'' @ [0x0A] @
                       str ''  - Be calm'') []) example_event =
     \<lparr>statusCode = 200, headers = success_headers,
      body = JObj [(str ''constraints'',
                      JArr [JObj [(str ''id'', JStr (str ''uuid-0'')),
                                  (str ''text'', JStr (str ''Be kind'')),
                                  (str ''sourceStart'', JNum 0),
                                  (str ''sourceEnd'', JNum 8)],
                            JObj [(str ''id'', JStr (str ''uuid-1'')),
                                  (str ''text'', JStr (str ''-Be brief'')),
                                  (str ''sourceStart'', JNum 0),
                                  (str ''sourceEnd'', JNum 8)],
                            JObj [(str ''id'', JStr (str ''uuid-2'')),
                                  (str ''text'', JStr (str ''- Be calm'')),
                                  (str ''sourceStart'', JNum 0),
                                  (str ''sourceEnd'', JNum 8)]]),
                   (str ''redundantGroups'', JArr []),
                   (str ''contradictions'', JArr []),
                   (str ''originalText'', JStr (str ''Be kind.''))]\<rparr>"
proof -
  let ?a = "str ''- Be kind'' @ [0x0A] @ str ''-Be brief'' @ [0x0A] @ str ''  - Be calm''"
  have 1: "trim ?a = ?a" by (simp add: trim_def is_ws_def str_def)
  have 2: "stripCodeFence ?a = Inr ?a" by (simp add: fence_eval)
  have 3: "reconcile (answering ?a []) (str ''Be kind.'') ?a =
     Inr (JObj [(str ''constraints'',
                      JArr [JObj [(str ''id'', JStr (str ''uuid-0'')),
                                  (str ''text'', JStr (str ''Be kind'')),
                                  (str ''sourceStart'', JNum 0),
                                  (str ''sourceEnd'', JNum 8)],
                            JObj [(str ''id'', JStr (str ''uuid-1'')),
                                  (str ''text'', JStr (str ''-Be brief'')),
                                  (str ''sourceStart'', JNum 0),
                                  (str ''sourceEnd'', JNum 8)],
                            JObj [(str ''id'', JStr (str ''uuid-2'')),
                                  (str ''text'', JStr (str ''- Be calm'')),
                                  (str ''sourceStart'', JNum 0),
                                  (str ''sourceEnd'', JNum 8)]]),
                   (str ''redundantGroups'', JArr []),
                   (str ''contradictions'', JArr []),
                   (str ''originalText'', JStr (str ''Be kind.''))])"
    by (simp add: example_eval)
  show ?thesis by (rule handler_answering_ok [OF 1 2 3])
qed

section \<open>What the stripping returns\<close>

lemma starts_with_take: "starts_with (take n s) p \<Longrightarrow> starts_with s p"
  unfolding starts_with_iff by (metis append.assoc append_take_drop_id)

lemma index_of_SomeI:
  "i \<le> length s \<Longrightarrow> starts_with (drop i s) sep \<Longrightarrow>
     (\<And>j. j < i \<Longrightarrow> \<not> starts_with (drop j s) sep) \<Longrightarrow> index_of s sep = Some i"
proof (induction s arbitrary: i)
  case Nil
  then show ?case by (cases sep) auto
next
  case (Cons c cs)
  show ?case
  proof (cases i)
    case 0
    with Cons.prems show ?thesis by simp
  next
    case (Suc k)
    with Cons.prems(3) [of 0] have n: "\<not> starts_with (c # cs) sep" by simp
    have "index_of cs sep = Some k"
    proof (rule Cons.IH)
      show "k \<le> length cs" using Cons.prems(1) Suc by simp
      show "starts_with (drop k cs) sep" using Cons.prems(2) Suc by simp
      show "\<not> starts_with (drop j cs) sep" if "j < k" for j
        using Cons.prems(3) [of "Suc j"] that Suc by simp
    qed
    with n Suc show ?thesis by simp
  qed
qed

lemma index_of_take:
  assumes "index_of s sep = Some i" "i + length sep \<le> n"
  shows "index_of (take n s) sep = Some i"
proof (rule index_of_SomeI)
  from index_of_SomeD [OF assms(1)] obtain r where
    i: "i \<le> length s" and r: "drop i s = sep @ r"
    and m: "\<And>j. j < i \<Longrightarrow> \<not> starts_with (drop j s) sep"
    by (auto simp: starts_with_iff)
  show "i \<le> length (take n s)" using i assms(2) by simp
  have "drop i (take n s) = take (n - i) (drop i s)" by (simp add: drop_take)
  also have "\<dots> = sep @ take (n - i - length sep) r" using assms(2) by (simp add: r)
  finally show "starts_with (drop i (take n s)) sep" by (simp add: starts_with_iff)
  show "\<not> starts_with (drop j (take n s)) sep" if "j < i" for j
  proof
    assume "starts_with (drop j (take n s)) sep"
    then have "starts_with (take (n - j) (drop j s)) sep" by (simp add: drop_take)
    then have "starts_with (drop j s) sep" by (rule starts_with_take)
    with m [OF that] show False by simp
  qed
qed

lemma first_piece_here:
  "index_of s sep = Some (length a) \<Longrightarrow> s = a @ b \<Longrightarrow> first_piece s sep = a"
  by (simp add: first_piece_def)

lemma first_piece_none: "\<not> includes_str s sep \<Longrightarrow> first_piece s sep = s"
  by (simp add: first_piece_def includes_str_def)

lemma backtick_fence: "fence = [0x60, 0x60, 0x60]" "fence_json = fence @ str ''json''"
  by (simp_all add: fence_def fence_json_def str_def)

lemma first_piece_twice:
  assumes rest: "rest = content @ fence @ post"
    and first: "index_of rest fence = Some (length content)"
    and m: "m = fence \<or> (m = fence_json \<and> \<not> starts_with post [0x60])"
  shows "first_piece (first_piece rest m) fence = content"
proof -
  have nc: "\<not> includes_str content fence"
    using not_includes_take_first [OF first fence_nonempty(1)] by (simp add: rest)
  have tk: "take (length content) rest = content" by (simp add: rest)
  show ?thesis
  proof (cases "index_of rest m")
    case None
    then have "first_piece rest m = rest" by (simp add: first_piece_def)
    then show ?thesis using first tk by (simp add: first_piece_def)
  next
    case (Some j)
    then have fp: "first_piece rest m = take j rest" by (simp add: first_piece_def)
    from index_of_SomeD [OF Some] have sw: "starts_with (drop j rest) m" and jl: "j \<le> length rest" by auto
    from m sw have swf: "starts_with (drop j rest) fence"
      by (auto simp: starts_with_iff backtick_fence(2))
    have ge: "length content \<le> j"
      using index_of_SomeD [OF first] swf by (meson not_le_imp_less)
    consider "j = length content" | "j = length content + 1" | "j = length content + 2"
      | "length content + 3 \<le> j" using ge by linarith
    then show ?thesis
    proof cases
      case 1
      then show ?thesis using fp tk nc by (simp add: first_piece_none)
    next
      case 2
      with m first Some have mj: "m = fence_json" "\<not> starts_with post [0x60]" by auto
      have "drop j rest = [0x60, 0x60] @ post" by (simp add: 2 rest backtick_fence(1))
      with sw mj show ?thesis
        by (cases post) (auto simp: backtick_fence str_def)
    next
      case 3
      with m first Some have mj: "m = fence_json" "\<not> starts_with post [0x60]" by auto
      have "drop j rest = [0x60] @ post" by (simp add: 3 rest backtick_fence(1))
      with sw mj show ?thesis
        by (cases post) (auto simp: backtick_fence str_def)
    next
      case 4
      have a: "index_of (take j rest) fence = Some (length content)"
        by (rule index_of_take [OF first]) (use 4 in \<open>simp add: backtick_fence(1)\<close>)
      have b: "take (length content) (take j rest) = content"
        using ge tk by (simp add: min_def)
      have "first_piece (take j rest) fence = content"
        using a b by (simp add: first_piece_def)
      then show ?thesis by (simp only: fp)
    qed
  qed
qed

text \<open>
  Claim C6, as the handler has it. Let \<open>m\<close> be the marker \<^verbatim>\<open>```json\<close>, or the marker
  \<^verbatim>\<open>```\<close> for a text without \<^verbatim>\<open>```json\<close>. When the text is \<open>pre\<close>, the first
  \<open>m\<close> of the text, \<open>content\<close>, the first \<^verbatim>\<open>```\<close> after that marker, and \<open>post\<close>
  (which, for \<^verbatim>\<open>```json\<close>, does not begin with one more backtick), the stripping
  returns \<open>content\<close> with the white space trimmed and nothing of \<open>pre\<close> and \<open>post\<close>. A
  language tag other than \<^verbatim>\<open>json\<close> is part of \<open>content\<close>.
\<close>

theorem stripCodeFence_between:
  assumes "t = pre @ m @ content @ fence @ post"
    and "index_of t m = Some (length pre)"
    and "index_of (content @ fence @ post) fence = Some (length content)"
    and "(m = fence \<and> \<not> includes_str t fence_json) \<or>
         (m = fence_json \<and> \<not> starts_with post [0x60])"
  shows "stripCodeFence t = Inr (trim content)"
proof -
  from assms(4) have m: "m \<noteq> []" "m = fence \<or> (m = fence_json \<and> \<not> starts_with post [0x60])"
    using fence_nonempty by auto
  have "drop (length pre + length m) t = content @ fence @ post" by (simp add: assms(1))
  with between_fences_eq [OF m(1) assms(2)] first_piece_twice [OF refl assms(3) m(2)]
  have b: "between_fences t m = Inr (trim content)" by simp
  have inc: "includes_str t m" using assms(2) by (simp add: includes_str_def)
  from assms(4) show ?thesis
  proof
    assume "m = fence \<and> \<not> includes_str t fence_json"
    with b inc show ?thesis by (simp add: stripCodeFence_def)
  next
    assume "m = fence_json \<and> \<not> starts_with post [0x60]"
    with b inc show ?thesis by (simp add: stripCodeFence_def)
  qed
qed

theorem stripCodeFence_between_witness:
  "index_of (str ''Here: '' @ fence_json @ str '' {} '' @ fence @ str '' done'') fence_json =
     Some (length (str ''Here: '')) \<and>
   index_of (str '' {} '' @ fence @ str '' done'') fence = Some (length (str '' {} '')) \<and>
   \<not> starts_with (str '' done'') [0x60] \<and>
   stripCodeFence (str ''Here: '' @ fence_json @ str '' {} '' @ fence @ str '' done'') =
     Inr (str ''{}'')"
proof -
  let ?t = "str ''Here: '' @ fence_json @ str '' {} '' @ fence @ str '' done''"
  have 2: "index_of ?t fence_json = Some (length (str ''Here: ''))"
    by (simp add: fence_def fence_json_def str_def)
  have 3: "index_of (str '' {} '' @ fence @ str '' done'') fence = Some (length (str '' {} ''))"
    by (simp add: fence_def str_def)
  have 4: "\<not> starts_with (str '' done'') [0x60]" by (simp add: str_def)
  then have 5: "(fence_json = fence \<and> \<not> includes_str ?t fence_json) \<or>
      (fence_json = fence_json \<and> \<not> starts_with (str '' done'') [0x60])" by simp
  have "trim (str '' {} '') = str ''{}''" by (simp add: trim_def is_ws_def str_def)
  with stripCodeFence_between [OF refl 2 3 5] have "stripCodeFence ?t = Inr (str ''{}'')"
    by (simp only:)
  with 2 3 4 show ?thesis by (intro conjI)
qed

text \<open>
  Claim C6 as it is written fails: the text has a plain fence with the content
  \<^verbatim>\<open>npm test\<close> and, after it, a \<^verbatim>\<open>```json\<close> fence; the stripping returns the
  content of the second fence, not of the first pair of markers.
\<close>

theorem json_fence_preferred:
  "first_fenced (str ''``` npm test ``` ```json {} ```'') = Some (str '' npm test '') \<and>
   stripCodeFence (str ''``` npm test ``` ```json {} ```'') = Inr (str ''{}'') \<and>
   trim (str '' npm test '') \<noteq> str ''{}''"
proof (intro conjI)
  show "first_fenced (str ''``` npm test ``` ```json {} ```'') = Some (str '' npm test '')"
    by (simp add: first_fenced_def fence_def str_def)
  show "stripCodeFence (str ''``` npm test ``` ```json {} ```'') = Inr (str ''{}'')"
    by (simp add: fence_eval)
  show "trim (str '' npm test '') \<noteq> str ''{}''"
    by (simp add: trim_def is_ws_def str_def)
qed

end
